theory Spec2Isabelle
  imports Main "HOL-Library.Sublist"
begin

section \<open>Text: characters, case, whitespace, substrings\<close>

text \<open>
  A Python \<open>str\<close> is modelled as a \<open>string\<close> whose characters stand for the code points
  U+0000 to U+00FF. On that range the functions below are what CPython computes:
  \<open>str.lower\<close>, \<open>str.isspace\<close> (also the class \<open>\s\<close> and what \<open>str.strip\<close> removes) and
  the word characters of \<open>\w\<close> and \<open>\b\<close> (alphanumeric or underscore). Text beyond that
  range is outside the model.
\<close>

definition between :: "int \<Rightarrow> int \<Rightarrow> int \<Rightarrow> bool" where
  "between lo hi n = (lo \<le> n \<and> n \<le> hi)"

definition upper_cp :: "int \<Rightarrow> bool" where
  "upper_cp n = (between 65 90 n \<or> between 192 214 n \<or> between 216 222 n)"

definition space_cp :: "int \<Rightarrow> bool" where
  "space_cp n = (between 9 13 n \<or> between 28 32 n \<or> n = 133 \<or> n = 160)"

definition word_cp :: "int \<Rightarrow> bool" where
  "word_cp n = (between 48 57 n \<or> between 65 90 n \<or> n = 95 \<or> between 97 122 n
     \<or> n = 170 \<or> n = 178 \<or> n = 179 \<or> n = 181 \<or> n = 185 \<or> n = 186 \<or> between 188 190 n
     \<or> between 192 214 n \<or> between 216 246 n \<or> between 248 255 n)"

definition is_upper :: "char \<Rightarrow> bool" where
  "is_upper c = upper_cp (of_char c)"

definition lower_char :: "char \<Rightarrow> char" where
  "lower_char c = (if is_upper c then char_of (of_char c + (32::int)) else c)"

definition lower :: "string \<Rightarrow> string" where
  "lower s = map lower_char s"

definition is_space :: "char \<Rightarrow> bool" where
  "is_space c = space_cp (of_char c)"

definition is_word :: "char \<Rightarrow> bool" where
  "is_word c = word_cp (of_char c)"

definition strip :: "string \<Rightarrow> string" where
  "strip s = rev (dropWhile is_space (rev (dropWhile is_space s)))"

text \<open>\<open>w in s\<close> on strings: \<open>w\<close> occurs in \<open>s\<close> as a contiguous run.\<close>

fun contains :: "string \<Rightarrow> string \<Rightarrow> bool" where
  "contains [] w = (w = [])"
| "contains (c # cs) w = (prefix w (c # cs) \<or> contains cs w)"

text \<open>\<open>sep.join(xs)\<close> and \<open>s.split(sep)\<close> for a non-empty separator.\<close>

fun join :: "string \<Rightarrow> string list \<Rightarrow> string" where
  "join sep [] = []"
| "join sep [x] = x"
| "join sep (x # y # ys) = x @ sep @ join sep (y # ys)"

fun split_acc :: "string \<Rightarrow> string \<Rightarrow> string \<Rightarrow> string list" where
  "split_acc sep acc [] = [acc]"
| "split_acc sep acc (c # cs) =
     (if sep \<noteq> [] \<and> prefix sep (c # cs)
      then acc # split_acc sep [] (drop (length sep - 1) cs)
      else split_acc sep (acc @ [c]) cs)"

definition split :: "string \<Rightarrow> string \<Rightarrow> string list" where
  "split sep s = split_acc sep [] s"

section \<open>Regular expressions as the orchestrator uses them\<close>

text \<open>
  The patterns of the source use literals, \<open>\s\<close>, one character range, \<open>\b\<close>, grouping,
  alternation and the greedy star. A cursor is the character just consumed (if any) and the
  text still to read; \<open>ends\<close> lists, in backtracking order, the cursors at which a match
  started at the given cursor can end. The flag is \<open>re.IGNORECASE\<close>.
\<close>

datatype regex = Str string | Spc | Rng char char | WordB
  | Seq regex regex | Alt regex regex | Star regex

type_synonym cursor = "char option \<times> string"

definition chr_eq :: "bool \<Rightarrow> char \<Rightarrow> char \<Rightarrow> bool" where
  "chr_eq ic p c = (if ic then lower_char p = lower_char c else p = c)"

fun lit_match :: "bool \<Rightarrow> string \<Rightarrow> cursor \<Rightarrow> cursor list" where
  "lit_match ic [] cur = [cur]"
| "lit_match ic (p # ps) (prev, []) = []"
| "lit_match ic (p # ps) (prev, c # cs) =
     (if chr_eq ic p c then lit_match ic ps (Some c, cs) else [])"

definition opt_word :: "char option \<Rightarrow> bool" where
  "opt_word x = (case x of None \<Rightarrow> False | Some c \<Rightarrow> is_word c)"

fun at_boundary :: "cursor \<Rightarrow> bool" where
  "at_boundary (prev, []) = opt_word prev"
| "at_boundary (prev, c # cs) = (opt_word prev \<noteq> is_word c)"

fun star_ends :: "nat \<Rightarrow> (cursor \<Rightarrow> cursor list) \<Rightarrow> cursor \<Rightarrow> cursor list" where
  "star_ends 0 f cur = [cur]"
| "star_ends (Suc n) f cur =
     concat (map (star_ends n f)
               (filter (\<lambda>c'. length (snd c') < length (snd cur)) (f cur))) @ [cur]"

primrec ends :: "bool \<Rightarrow> regex \<Rightarrow> cursor \<Rightarrow> cursor list" where
  "ends ic (Str w) cur = lit_match ic w cur"
| "ends ic Spc cur =
     (case snd cur of [] \<Rightarrow> [] | c # cs \<Rightarrow> if is_space c then [(Some c, cs)] else [])"
| "ends ic (Rng a b) cur =
     (case snd cur of [] \<Rightarrow> []
      | c # cs \<Rightarrow> if between (of_char a) (of_char b) (of_char c)
                 then [(Some c, cs)] else [])"
| "ends ic WordB cur = (if at_boundary cur then [cur] else [])"
| "ends ic (Seq r1 r2) cur = concat (map (ends ic r2) (ends ic r1 cur))"
| "ends ic (Alt r1 r2) cur = ends ic r1 cur @ ends ic r2 cur"
| "ends ic (Star r) cur = star_ends (length (snd cur)) (ends ic r) cur"

text \<open>
  \<open>pattern.search(s)\<close>: the leftmost start at which the pattern matches, and there the
  first match in backtracking order; the value is the matched text (\<open>match.group()\<close>).
\<close>

fun search_from :: "bool \<Rightarrow> regex \<Rightarrow> char option \<Rightarrow> string \<Rightarrow> string option" where
  "search_from ic r prev [] =
     (case ends ic r (prev, []) of [] \<Rightarrow> None | e # es \<Rightarrow> Some [])"
| "search_from ic r prev (c # cs) =
     (case ends ic r (prev, c # cs) of
        [] \<Rightarrow> search_from ic r (Some c) cs
      | e # es \<Rightarrow> Some (take (length (c # cs) - length (snd e)) (c # cs)))"

definition re_search :: "bool \<Rightarrow> regex \<Rightarrow> string \<Rightarrow> string option" where
  "re_search ic r s = search_from ic r None s"

section \<open>Schemas\<close>

datatype AgentType = MASTER | IQVIA | EXIM | PATENT | CLINICAL_TRIALS
  | INTERNAL_KNOWLEDGE | WEB_INTELLIGENCE | REPORT_GENERATOR

fun AgentType_value :: "AgentType \<Rightarrow> string" where
  "AgentType_value MASTER = ''master''"
| "AgentType_value IQVIA = ''iqvia_insights''"
| "AgentType_value EXIM = ''exim_trends''"
| "AgentType_value PATENT = ''patent_landscape''"
| "AgentType_value CLINICAL_TRIALS = ''clinical_trials''"
| "AgentType_value INTERNAL_KNOWLEDGE = ''internal_knowledge''"
| "AgentType_value WEB_INTELLIGENCE = ''web_intelligence''"
| "AgentType_value REPORT_GENERATOR = ''report_generator''"

datatype TaskStatus = PENDING | IN_PROGRESS | COMPLETED | FAILED

datatype OutputFormat = TEXT | TABLE | CHART | PDF | EXCEL | JSON

text \<open>
  A table is the dictionary built by \<open>_format_table\<close> (cells already rendered with
  \<open>str\<close>; a missing title is \<open>None\<close>); a chart is the dictionary built by \<open>_format_chart\<close>,
  its series kept as opaque text.
\<close>

record table =
  tbl_title :: "string option"
  tbl_headers :: "string list"
  tbl_rows :: "string list list"

record chart =
  chart_type :: string
  chart_title :: string
  x_label :: string
  y_label :: string
  chart_data :: string

record AgentResponse =
  agent_type :: AgentType
  task_id :: string
  status :: TaskStatus
  data :: "(string \<times> string) list"
  summary :: string
  tables :: "table list"
  charts :: "chart list"
  references :: "string list"
  execution_time_ms :: nat
  error :: "string option"

text \<open>The values that the orchestrator stores in a task's parameter dictionary.\<close>

datatype pval = PNone | PStr string | PResponses "AgentResponse list" | PFormat OutputFormat

type_synonym params = "(string \<times> pval) list"

text \<open>
  \<open>AgentTask\<close>, with the fields the orchestration reads or sets. Its bookkeeping fields
  \<open>created_at\<close>, \<open>completed_at\<close>, \<open>result\<close> and \<open>error\<close> are never read by the
  orchestration code and are left out.
\<close>

record AgentTask =
  t_task_id :: string
  t_agent_type :: AgentType
  t_query :: string
  t_parameters :: params
  priority :: int
  t_status :: TaskStatus

text \<open>A narrative section, and the aggregate that synthesis builds.\<close>

record section_entry =
  sec_title :: string
  sec_content :: string

text \<open>The dictionary that the JSON output mode exposes, and the two kinds of response.\<close>

record json_response =
  j_query :: string
  j_executive_summary :: string
  j_sections :: "section_entry list"
  j_tables :: "table list"
  j_charts :: "chart list"
  j_references :: "string list"
  j_generated_at :: string

datatype response_body = TextBody string | JsonBody json_response

record synthesis =
  syn_response :: response_body
  syn_sections :: "section_entry list"
  syn_tables :: "table list"
  syn_charts :: "chart list"
  syn_references :: "string list"

section \<open>Master agent: vocabularies and intent patterns\<close>

definition THERAPY_AREAS :: "string list" where
  "THERAPY_AREAS = [''Oncology'', ''Cardiology'', ''Neurology'', ''Immunology'',
     ''Infectious Diseases'', ''Metabolic Disorders'', ''Respiratory'', ''Dermatology'',
     ''Ophthalmology'', ''Rare Diseases'']"

definition DRUG_NAMES :: "string list" where
  "DRUG_NAMES = [''Remdesivir'', ''Metformin'', ''Aspirin'', ''Lisinopril'', ''Atorvastatin'',
     ''Omeprazole'', ''Amlodipine'', ''Gabapentin'', ''Sertraline'', ''Losartan'',
     ''Sildenafil'', ''Tadalafil'', ''Duloxetine'', ''Pregabalin'', ''Celecoxib'',
     ''Rituximab'', ''Pembrolizumab'', ''Nivolumab'', ''Adalimumab'', ''Infliximab'']"

text \<open>\<open>\s*\<close> between two parts of a pattern.\<close>

definition ws :: "regex \<Rightarrow> regex \<Rightarrow> regex" where
  "ws r1 r2 = Seq r1 (Seq (Star Spc) r2)"

definition intent_patterns :: "(string \<times> regex list) list" where
  "intent_patterns = [
    (''market_analysis'', [
       ws (Str ''market'') (Alt (Str ''size'') (Alt (Str ''share'') (Alt (Str ''analysis'') (Str ''trend'')))),
       ws (Str ''sales'') (Alt (Str ''data'') (Alt (Str ''trend'') (Str ''volume''))),
       Str ''iqvia'',
       ws (Str ''commercial'') (Alt (Str ''opportunity'') (Str ''potential''))]),
    (''trade_analysis'', [
       Alt (Str ''export'') (Alt (Str ''import'') (Alt (Str ''exim'') (Str ''trade''))),
       Alt (Str ''sourcing'') (ws (Str ''supply'') (Str ''chain'')),
       ws (Str ''api'') (Alt (Str ''source'') (Str ''supply''))]),
    (''patent_analysis'', [
       Alt (Str ''patent'') (ws (Str ''ip'') (Alt (Str ''analysis'') (Str ''landscape''))),
       Alt (Str ''fto'') (ws (Str ''freedom'') (ws (Str ''to'') (Str ''operate''))),
       Alt (Seq (Str ''expir'') (Alt (Str ''y'') (Str ''ation''))) (ws (Str ''generic'') (Str ''entry''))]),
    (''clinical_trials'', [
       Alt (ws (Str ''clinical'') (Str ''trial''))
         (Alt (Str ''study'') (ws (Str ''phase'') (Rng CHR ''1'' CHR ''4''))),
       Alt (Str ''pipeline'') (ws (Str ''development'') (Str ''stage'')),
       Alt (Str ''enrollment'') (Str ''endpoint'')]),
    (''internal_knowledge'', [
       Alt (Str ''internal'') (ws (Str ''strategy'') (Alt (Str ''document'') (Str ''deck''))),
       Alt (ws (Str ''field'') (Str ''insight'')) (ws (Str ''kol'') (Str ''feedback'')),
       ws (Str ''competitive'') (Str ''intelligence'')]),
    (''web_intelligence'', [
       Alt (Str ''guideline'') (Alt (Str ''publication'') (Str ''news'')),
       Alt (Str ''regulatory'') (Alt (Str ''fda'') (Str ''ema'')),
       Alt (Str ''latest'') (ws (Str ''recent'') (Str ''update''))]),
    (''report_generation'', [
       Alt (ws (Str ''generate'') (Str ''report'')) (ws (Str ''create'') (Str ''pdf'')),
       Alt (Str ''export'') (Alt (Str ''download'') (ws (Str ''summary'') (Str ''report'')))])]"

text \<open>
  \<open>re.compile(rf"\b{name}\b", re.IGNORECASE)\<close>: the vocabulary names hold letters and
  spaces only, so the interpolated name is a literal.
\<close>

definition word_pattern :: "string \<Rightarrow> regex" where
  "word_pattern name = Seq WordB (Seq (Str name) WordB)"

definition drug_patterns :: "regex list" where
  "drug_patterns = map word_pattern DRUG_NAMES"

definition therapy_patterns :: "regex list" where
  "therapy_patterns = map word_pattern THERAPY_AREAS"

section \<open>Master agent: query analysis\<close>

text \<open>
  The master agent holds the optional text generator (\<open>llm.invoke\<close> on a prompt: \<open>Inl\<close>
  is a raised exception, \<open>Inr\<close> the content of the reply). Two services of the Python
  runtime are carried with it: the order in which the interpreter enumerates a set of
  agents and a set of strings (the source turns sets into lists; the order is fixed for the
  life of a process, not by the language), and \<open>json.dumps(d, indent=2)\<close>, which raises
  (\<open>Inl\<close>) on a value it cannot serialise.
\<close>

record MasterAgent =
  llm :: "(string \<Rightarrow> string + string) option"
  agent_order :: "AgentType list \<Rightarrow> AgentType list"
  ref_order :: "string list \<Rightarrow> string list"
  json_dumps :: "json_response \<Rightarrow> string + string"

text \<open>\<open>list(set(xs))\<close>: the distinct elements, in the interpreter's order.\<close>

definition list_of_set :: "('a list \<Rightarrow> 'a list) \<Rightarrow> 'a list \<Rightarrow> 'a list" where
  "list_of_set order xs = order (remdups xs)"

record analysis =
  a_original_query :: string
  a_drug_name :: "string option"
  a_therapy_area :: "string option"
  a_intents :: "string list"
  a_required_agents :: "AgentType list"
  a_needs_report :: bool
  a_parameters :: params

fun first_match :: "regex list \<Rightarrow> string \<Rightarrow> string option" where
  "first_match [] query = None"
| "first_match (p # ps) query =
     (case re_search True p query of Some m \<Rightarrow> Some m | None \<Rightarrow> first_match ps query)"

definition extract_drug_name :: "string \<Rightarrow> string option" where
  "extract_drug_name query = first_match drug_patterns query"

definition extract_therapy_area :: "string \<Rightarrow> string option" where
  "extract_therapy_area query = first_match therapy_patterns query"

definition matched_intents :: "string \<Rightarrow> string list" where
  "matched_intents query_lower =
     map fst (filter (\<lambda>(intent, patterns).
                        list_ex (\<lambda>p. re_search False p query_lower \<noteq> None) patterns)
                     intent_patterns)"

definition default_intents :: "string list" where
  "default_intents = [''market_analysis'', ''clinical_trials'', ''patent_analysis'']"

definition intent_to_agent :: "(string \<times> AgentType) list" where
  "intent_to_agent = [
     (''market_analysis'', IQVIA), (''trade_analysis'', EXIM), (''patent_analysis'', PATENT),
     (''clinical_trials'', CLINICAL_TRIALS), (''internal_knowledge'', INTERNAL_KNOWLEDGE),
     (''web_intelligence'', WEB_INTELLIGENCE), (''report_generation'', REPORT_GENERATOR)]"

definition report_words :: "string list" where
  "report_words = [''report'', ''pdf'', ''document'', ''summary'']"

definition opt_pval :: "string option \<Rightarrow> pval" where
  "opt_pval x = (case x of None \<Rightarrow> PNone | Some s \<Rightarrow> PStr s)"

definition analyze_query :: "MasterAgent \<Rightarrow> string \<Rightarrow> analysis" where
  "analyze_query self query =
    (let query_lower = lower query;
         drug = extract_drug_name query;
         therapy = extract_therapy_area query;
         found = matched_intents query_lower;
         intents = (if found = [] then default_intents else found);
         agents = list_of_set (agent_order self)
                    (List.map_filter (map_of intent_to_agent) intents);
         report = (''report_generation'' \<in> set intents
                   \<or> list_ex (contains query_lower) report_words)
     in \<lparr> a_original_query = query, a_drug_name = drug, a_therapy_area = therapy,
          a_intents = intents, a_required_agents = agents, a_needs_report = report,
          a_parameters = [(''drug_name'', opt_pval drug), (''therapy_area'', opt_pval therapy),
                          (''query'', PStr query)] \<rparr>)"

section \<open>Master agent: task planning\<close>

text \<open>
  \<open>parameters.get(key, "")\<close> as the planner interpolates it: the text under the key, empty
  when the key is missing or holds \<open>None\<close>. (The analysis stores only text or \<open>None\<close> under
  the two keys read here.)
\<close>

definition param_text :: "params \<Rightarrow> string \<Rightarrow> string" where
  "param_text ps k = (case map_of ps k of Some (PStr s) \<Rightarrow> s | _ \<Rightarrow> [])"

definition clause :: "string \<Rightarrow> string \<Rightarrow> string" where
  "clause lead s = (if s \<noteq> [] then lead @ s else [])"

fun create_agent_query :: "AgentType \<Rightarrow> string \<Rightarrow> params \<Rightarrow> string" where
  "create_agent_query IQVIA q ps = ''Analyze market data and sales trends''
     @ clause '' for '' (param_text ps ''drug_name'') @ clause '' in '' (param_text ps ''therapy_area'') @ ''. '' @ q"
| "create_agent_query EXIM q ps = ''Analyze export-import trade data''
     @ clause '' for '' (param_text ps ''drug_name'') @ clause '' in '' (param_text ps ''therapy_area'') @ ''. '' @ q"
| "create_agent_query PATENT q ps = ''Analyze patent landscape and IP status''
     @ clause '' for '' (param_text ps ''drug_name'') @ clause '' in '' (param_text ps ''therapy_area'') @ ''. '' @ q"
| "create_agent_query CLINICAL_TRIALS q ps = ''Search clinical trials database''
     @ clause '' for '' (param_text ps ''drug_name'') @ clause '' in '' (param_text ps ''therapy_area'') @ ''. '' @ q"
| "create_agent_query INTERNAL_KNOWLEDGE q ps = ''Search internal knowledge base''
     @ clause '' related to '' (param_text ps ''drug_name'') @ clause '' in '' (param_text ps ''therapy_area'') @ ''. '' @ q"
| "create_agent_query WEB_INTELLIGENCE q ps = ''Search web for latest information''
     @ clause '' on '' (param_text ps ''drug_name'') @ clause '' in '' (param_text ps ''therapy_area'') @ ''. '' @ q"
| "create_agent_query REPORT_GENERATOR q ps =
     ''Generate comprehensive research report based on all gathered data.''"
| "create_agent_query MASTER q ps = q"

fun get_task_priority :: "AgentType \<Rightarrow> int" where
  "get_task_priority IQVIA = 1"
| "get_task_priority CLINICAL_TRIALS = 1"
| "get_task_priority PATENT = 2"
| "get_task_priority EXIM = 2"
| "get_task_priority WEB_INTELLIGENCE = 3"
| "get_task_priority INTERNAL_KNOWLEDGE = 3"
| "get_task_priority REPORT_GENERATOR = 5"
| "get_task_priority MASTER = 3"

text \<open>\<open>a or b or fallback\<close> on optional text: the first that is neither \<open>None\<close> nor empty.\<close>

definition first_truthy :: "string option \<Rightarrow> string option \<Rightarrow> string \<Rightarrow> string" where
  "first_truthy a b fallback =
     (case a of Some s \<Rightarrow> (if s \<noteq> [] then s else
                              (case b of Some t \<Rightarrow> (if t \<noteq> [] then t else fallback) | None \<Rightarrow> fallback))
              | None \<Rightarrow> (case b of Some t \<Rightarrow> (if t \<noteq> [] then t else fallback) | None \<Rightarrow> fallback))"

definition report_title :: "string option \<Rightarrow> string option \<Rightarrow> string" where
  "report_title drug therapy =
     ''Research Report: '' @ first_truthy drug therapy ''Drug Repurposing Analysis''"

text \<open>\<open>{**d, key: v}\<close>: the key keeps its place when present, else it is added last.\<close>

fun dict_set :: "params \<Rightarrow> string \<Rightarrow> pval \<Rightarrow> params" where
  "dict_set [] k v = [(k, v)]"
| "dict_set ((k', v') # ps) k v = (if k' = k then (k, v) # ps else (k', v') # dict_set ps k v)"

text \<open>
  Task identifiers come from \<open>uuid.uuid4().hex[:8]\<close>; \<open>uuids n\<close> is the hex text of the
  \<open>n\<close>-th identifier drawn while planning.
\<close>

definition worker_task :: "analysis \<Rightarrow> string \<Rightarrow> AgentType \<Rightarrow> AgentTask" where
  "worker_task a uuid ty =
     \<lparr> t_task_id = ''task_'' @ take 8 uuid, t_agent_type = ty,
       t_query = create_agent_query ty (a_original_query a) (a_parameters a),
       t_parameters = a_parameters a, priority = get_task_priority ty, t_status = PENDING \<rparr>"

definition report_task :: "analysis \<Rightarrow> string \<Rightarrow> AgentTask" where
  "report_task a uuid =
     \<lparr> t_task_id = ''task_'' @ take 8 uuid, t_agent_type = REPORT_GENERATOR,
       t_query = ''Generate comprehensive research report'',
       t_parameters = dict_set (a_parameters a) ''title''
                        (PStr (report_title (a_drug_name a) (a_therapy_area a))),
       priority = 5, t_status = PENDING \<rparr>"

text \<open>The task list in insertion order, before \<open>tasks.sort\<close>.\<close>

definition worker_tasks :: "(nat \<Rightarrow> string) \<Rightarrow> analysis \<Rightarrow> AgentTask list" where
  "worker_tasks uuids a =
     map (\<lambda>(i, ty). worker_task a (uuids i) ty) (enumerate 0 (a_required_agents a))"

definition planned_unsorted :: "(nat \<Rightarrow> string) \<Rightarrow> analysis \<Rightarrow> AgentTask list" where
  "planned_unsorted uuids a =
     worker_tasks uuids a
     @ (if a_needs_report a then [report_task a (uuids (length (a_required_agents a)))] else [])"

definition create_task_plan :: "(nat \<Rightarrow> string) \<Rightarrow> analysis \<Rightarrow> AgentTask list" where
  "create_task_plan uuids a = sort_key priority (planned_unsorted uuids a)"

section \<open>Master agent: synthesis\<close>

text \<open>
  \<open>s.replace("_", " ").title()\<close>. The source applies it to agent identifiers only, which
  are ASCII; \<open>title_case\<close> treats the ASCII letters as the cased characters.
\<close>

definition is_ascii_lower :: "char \<Rightarrow> bool" where
  "is_ascii_lower c = between 97 122 (of_char c)"

definition is_ascii_upper :: "char \<Rightarrow> bool" where
  "is_ascii_upper c = between 65 90 (of_char c)"

definition upper_char :: "char \<Rightarrow> char" where
  "upper_char c = (if is_ascii_lower c then char_of (of_char c - (32::int)) else c)"

fun title_case :: "bool \<Rightarrow> string \<Rightarrow> string" where
  "title_case prev_cased [] = []"
| "title_case prev_cased (c # cs) =
     (if is_ascii_lower c then (if prev_cased then c else upper_char c) # title_case True cs
      else if is_ascii_upper c then (if prev_cased then lower_char c else c) # title_case True cs
      else c # title_case False cs)"

definition agent_title :: "string \<Rightarrow> string" where
  "agent_title agent = title_case False (map (\<lambda>c. if c = CHR ''_'' then CHR '' '' else c) agent)"

definition nl :: string where
  "nl = [CHR 0x0A]"

text \<open>
  The bullet sign of the summary (U+2022) lies outside the modelled range; it is carried
  as an opaque token, its three UTF-8 bytes, and never inspected.
\<close>

definition bullet :: string where
  "bullet = [CHR 0xE2, CHR 0x80, CHR 0xA2]"

text \<open>The prompt handed to the text generator.\<close>

definition summary_prompt :: "string \<Rightarrow> (string \<times> string) list \<Rightarrow> string" where
  "summary_prompt query summaries =
     ''Based on the following analysis from multiple specialized agents, '' @ nl
     @ ''create a concise executive summary (3-5 bullet points) answering the query: ''
     @ [CHR 0x22] @ query @ [CHR 0x22] @ nl @ nl
     @ ''Agent Analyses:'' @ nl
     @ join nl (map (\<lambda>(agent, content). ''**'' @ agent @ ''**: '' @ take 500 content) summaries)
     @ nl @ nl @ ''Provide key insights and actionable recommendations.''"

text \<open>The deterministic fallback: the first meaningful line of each summary.\<close>

definition meaningful_lines :: "string \<Rightarrow> string list" where
  "meaningful_lines content =
     filter (\<lambda>l. l \<noteq> [] \<and> \<not> prefix ''#'' l) (map strip (split nl content))"

definition summary_points :: "(string \<times> string) list \<Rightarrow> string list" where
  "summary_points summaries =
     List.map_filter (\<lambda>(agent, content).
        (case meaningful_lines content of [] \<Rightarrow> None
         | l # ls \<Rightarrow> Some (bullet @ '' **'' @ agent_title agent @ '':** '' @ l))) summaries"

definition fallback_summary :: "(string \<times> string) list \<Rightarrow> string" where
  "fallback_summary summaries =
     (if summary_points summaries = []
      then ''Analysis complete. Specialized agents have gathered domain-specific data for your request. Please see the detailed sections below.''
      else ''Key Insights from Multi-Agent Analysis:'' @ nl @ nl
           @ join nl (take 5 (summary_points summaries)))"

definition create_executive_summary ::
  "MasterAgent \<Rightarrow> string \<Rightarrow> (string \<times> string) list \<Rightarrow> string" where
  "create_executive_summary self query summaries =
     (case llm self of
        None \<Rightarrow> fallback_summary summaries
      | Some invoke \<Rightarrow>
          (case invoke (summary_prompt query summaries) of
             Inr content \<Rightarrow> content
           | Inl e \<Rightarrow> fallback_summary summaries))"

definition completed :: "AgentResponse list \<Rightarrow> AgentResponse list" where
  "completed responses = filter (\<lambda>r. status r = COMPLETED) responses"

text \<open>
  \<open>synthesize_responses\<close>; \<open>now\<close> is what \<open>datetime.now().isoformat()\<close> returns at the
  call.
\<close>

definition synthesize_responses ::
  "MasterAgent \<Rightarrow> string \<Rightarrow> string \<Rightarrow> AgentResponse list \<Rightarrow> OutputFormat \<Rightarrow> synthesis" where
  "synthesize_responses self now query responses output_format =
    (let all_summaries = map (\<lambda>r. (AgentType_value (agent_type r), summary r)) (completed responses);
         all_tables = concat (map tables (completed responses));
         all_charts = concat (map charts (completed responses));
         all_references = concat (map references (completed responses));
         sections = map (\<lambda>(agent, content).
                      \<lparr> sec_title = agent_title agent, sec_content = content \<rparr>) all_summaries;
         executive_summary = create_executive_summary self query all_summaries;
         refs = list_of_set (ref_order self) all_references;
         final_response =
           (if output_format = JSON
            then JsonBody \<lparr> j_query = query, j_executive_summary = executive_summary,
                   j_sections = sections, j_tables = all_tables, j_charts = all_charts,
                   j_references = refs, j_generated_at = now \<rparr>
            else TextBody (join nl (
                   [''# Research Analysis'' @ nl @ nl @ ''**Query:** '' @ query @ nl,
                    ''## Executive Summary'' @ nl @ nl @ executive_summary @ nl,
                    ''---'' @ nl]
                   @ map (\<lambda>s. ''## '' @ sec_title s @ nl @ nl @ sec_content s @ nl @ nl) sections
                   @ (if all_references \<noteq> []
                      then (''## References'' @ nl @ nl) # map (\<lambda>ref. ''- '' @ ref @ nl) refs
                      else []))))
     in \<lparr> syn_response = final_response, syn_sections = sections, syn_tables = all_tables,
          syn_charts = all_charts, syn_references = refs \<rparr>)"

text \<open>
  \<open>format_response\<close>. In JSON mode the dictionary goes through \<open>json.dumps\<close>; in text
  mode at most five tables of at most ten rows are appended. (\<open>include_charts\<close> is
  accepted and not used, as in the source.)
\<close>

definition render_row :: "string list \<Rightarrow> string" where
  "render_row cells = ''| '' @ join '' | '' cells @ '' |'' @ nl"

definition render_table :: "table \<Rightarrow> string" where
  "render_table t =
     nl @ ''### '' @ (case tbl_title t of None \<Rightarrow> ''Table'' | Some x \<Rightarrow> x) @ nl
     @ (if tbl_headers t \<noteq> [] \<and> tbl_rows t \<noteq> []
        then render_row (tbl_headers t) @ render_row (map (\<lambda>h. ''---'') (tbl_headers t))
             @ concat (map render_row (take 10 (tbl_rows t)))
        else [])"

definition format_response ::
  "MasterAgent \<Rightarrow> synthesis \<Rightarrow> bool \<Rightarrow> bool \<Rightarrow> string + string" where
  "format_response self syn include_tables include_charts =
     (case syn_response syn of
        JsonBody j \<Rightarrow> json_dumps self j
      | TextBody response \<Rightarrow>
          Inr (if include_tables \<and> syn_tables syn \<noteq> []
               then response @ nl @ nl @ ''## Data Tables'' @ nl
                    @ concat (map render_table (take 5 (syn_tables syn)))
               else response))"

section \<open>Worker agents\<close>

text \<open>
  A registered agent is known to the orchestrator by its \<open>execute\<close> method: \<open>Inl\<close> is an
  exception that escapes the call. \<open>BaseAgent.execute\<close> wraps the abstract
  \<open>_process_query\<close> of a worker, which may raise, and measures the call's duration.
\<close>

type_synonym agent = "AgentTask \<Rightarrow> string + AgentResponse"

record process_result =
  res_data :: "(string \<times> string) list option"
  res_summary :: "string option"
  res_tables :: "table list option"
  res_charts :: "chart list option"
  res_references :: "string list option"

record worker =
  w_agent_type :: AgentType
  process_query :: "string \<Rightarrow> params \<Rightarrow> string + process_result"
  elapsed_ms :: "AgentTask \<Rightarrow> nat"

definition get_or :: "'a option \<Rightarrow> 'a \<Rightarrow> 'a" where
  "get_or x d = (case x of None \<Rightarrow> d | Some v \<Rightarrow> v)"

definition BaseAgent_execute :: "worker \<Rightarrow> agent" where
  "BaseAgent_execute self task =
     (case process_query self (t_query task) (t_parameters task) of
        Inr result \<Rightarrow>
          Inr \<lparr> agent_type = w_agent_type self, task_id = t_task_id task, status = COMPLETED,
                data = get_or (res_data result) [], summary = get_or (res_summary result) [],
                tables = get_or (res_tables result) [], charts = get_or (res_charts result) [],
                references = get_or (res_references result) [],
                execution_time_ms = elapsed_ms self task, error = None \<rparr>
      | Inl e \<Rightarrow>
          Inr \<lparr> agent_type = w_agent_type self, task_id = t_task_id task, status = FAILED,
                data = [], summary = [], tables = [], charts = [], references = [],
                execution_time_ms = elapsed_ms self task, error = Some e \<rparr>)"

section \<open>Workflow state\<close>

datatype message = HumanMessage string | AIMessage string

record AgentState =
  s_messages :: "message list"
  s_user_query :: string
  s_query_intent :: "string option"
  s_drug_name :: "string option"
  s_therapy_area :: "string option"
  s_parameters :: params
  s_tasks :: "AgentTask list"
  s_current_task_index :: nat
  s_agent_responses :: "AgentResponse list"
  s_output_format :: OutputFormat
  s_include_charts :: bool
  s_include_tables :: bool
  s_generate_report :: bool
  s_final_response :: "string option"
  s_report_path :: "string option"
  s_iteration_count :: nat
  s_max_iterations :: nat
  s_status :: string
  s_error :: "string option"

definition create_initial_state ::
  "string \<Rightarrow> OutputFormat \<Rightarrow> bool \<Rightarrow> bool \<Rightarrow> bool \<Rightarrow> AgentState" where
  "create_initial_state user_query output_format include_charts include_tables generate_report =
     \<lparr> s_messages = [HumanMessage user_query], s_user_query = user_query,
       s_query_intent = None, s_drug_name = None, s_therapy_area = None, s_parameters = [],
       s_tasks = [], s_current_task_index = 0, s_agent_responses = [],
       s_output_format = output_format, s_include_charts = include_charts,
       s_include_tables = include_tables, s_generate_report = generate_report,
       s_final_response = None, s_report_path = None, s_iteration_count = 0,
       s_max_iterations = 10, s_status = ''initialized'', s_error = None \<rparr>"

section \<open>The orchestrator\<close>

text \<open>
  The registry maps an agent type to the agent registered for it. Each node of the graph
  takes the state and returns it with the node's update merged in (the two list channels
  \<open>messages\<close> and \<open>agent_responses\<close> are appended to, every other key is overwritten), or
  the message of the exception that escapes the node.
\<close>

record MultiAgentOrchestrator =
  master_agent :: MasterAgent
  worker_agents :: "AgentType \<Rightarrow> agent option"

definition bind_err :: "string + 'a \<Rightarrow> ('a \<Rightarrow> string + 'b) \<Rightarrow> string + 'b" where
  "bind_err m f = (case m of Inl e \<Rightarrow> Inl e | Inr x \<Rightarrow> f x)"

fun show_nat :: "nat \<Rightarrow> string" where
  "show_nat n = (if n < 10 then [char_of (48 + n)]
                 else show_nat (n div 10) @ [char_of (48 + n mod 10)])"

definition analyze_query_node :: "MultiAgentOrchestrator \<Rightarrow> AgentState \<Rightarrow> string + AgentState" where
  "analyze_query_node self st =
     (let a = analyze_query (master_agent self) (s_user_query st)
      in Inr (st\<lparr> s_query_intent := Some (join '', '' (a_intents a)),
                  s_drug_name := a_drug_name a, s_therapy_area := a_therapy_area a,
                  s_parameters := a_parameters a,
                  s_generate_report := (a_needs_report a \<or> s_generate_report st),
                  s_status := ''analyzed'',
                  s_messages := s_messages st @
                    [AIMessage (''Query analyzed. Identified intents: '' @ join '', '' (a_intents a))] \<rparr>))"

definition intent_mapping :: "(string \<times> AgentType) list" where
  "intent_mapping = [
     (''market_analysis'', IQVIA), (''trade_analysis'', EXIM), (''patent_analysis'', PATENT),
     (''clinical_trials'', CLINICAL_TRIALS), (''internal_knowledge'', INTERNAL_KNOWLEDGE),
     (''web_intelligence'', WEB_INTELLIGENCE)]"

definition no_split :: string where
  "no_split = [CHR 0x27] @ ''NoneType'' @ [CHR 0x27] @ '' object has no attribute ''
              @ [CHR 0x27] @ ''split'' @ [CHR 0x27]"

text \<open>\<open>state.get("query_intent", "")\<close> is \<open>None\<close> until the analysis node has run.\<close>

definition determine_required_agents :: "AgentState \<Rightarrow> string + AgentType list" where
  "determine_required_agents st =
     (case s_query_intent st of
        None \<Rightarrow> Inl no_split
      | Some query_intent \<Rightarrow>
          (let agents = List.map_filter (\<lambda>intent. map_of intent_mapping (strip intent))
                          (split '', '' query_intent)
           in Inr (if agents = [] then [IQVIA, CLINICAL_TRIALS, PATENT] else agents)))"

definition plan_tasks_node ::
  "MultiAgentOrchestrator \<Rightarrow> (nat \<Rightarrow> string) \<Rightarrow> AgentState \<Rightarrow> string + AgentState" where
  "plan_tasks_node self uuids st =
     (case s_query_intent st of
        None \<Rightarrow> Inl no_split
      | Some query_intent \<Rightarrow>
          bind_err (determine_required_agents st) (\<lambda>agents.
            (let a = \<lparr> a_original_query = s_user_query st, a_drug_name = s_drug_name st,
                       a_therapy_area = s_therapy_area st,
                       a_intents = split '', '' query_intent, a_required_agents = agents,
                       a_needs_report = s_generate_report st, a_parameters = s_parameters st \<rparr>;
                 tasks = create_task_plan uuids a
             in Inr (st\<lparr> s_tasks := tasks, s_current_task_index := 0, s_status := ''planned'',
                         s_messages := s_messages st @
                           [AIMessage (''Created '' @ show_nat (length tasks)
                                       @ '' tasks for execution.'')] \<rparr>))))"

definition failed_response :: "AgentTask \<Rightarrow> string \<Rightarrow> AgentResponse" where
  "failed_response task e =
     \<lparr> agent_type = t_agent_type task, task_id = t_task_id task, status = FAILED,
       data = [], summary = [], tables = [], charts = [], references = [],
       execution_time_ms = 0, error = Some e \<rparr>"

fun execute_tasks :: "(AgentType \<Rightarrow> agent option) \<Rightarrow> AgentTask list \<Rightarrow> AgentResponse list" where
  "execute_tasks registry [] = []"
| "execute_tasks registry (task # rest) =
     (if t_agent_type task = REPORT_GENERATOR then execute_tasks registry rest
      else (case registry (t_agent_type task) of
              None \<Rightarrow> execute_tasks registry rest
            | Some agent \<Rightarrow>
                (case agent task of
                   Inr response \<Rightarrow> response
                 | Inl e \<Rightarrow> failed_response task e) # execute_tasks registry rest))"

definition execute_tasks_node :: "MultiAgentOrchestrator \<Rightarrow> AgentState \<Rightarrow> string + AgentState" where
  "execute_tasks_node self st =
     (let responses = execute_tasks (worker_agents self) (s_tasks st)
      in Inr (st\<lparr> s_agent_responses := s_agent_responses st @ responses,
                  s_status := ''executed'',
                  s_messages := s_messages st @
                    [AIMessage (''Executed '' @ show_nat (length responses)
                                @ '' tasks successfully.'')] \<rparr>))"

definition synthesize_node ::
  "MultiAgentOrchestrator \<Rightarrow> string \<Rightarrow> AgentState \<Rightarrow> string + AgentState" where
  "synthesize_node self now st =
     (let syn = synthesize_responses (master_agent self) now (s_user_query st)
                  (s_agent_responses st) (s_output_format st)
      in bind_err (format_response (master_agent self) syn
                     (s_include_tables st) (s_include_charts st)) (\<lambda>formatted.
           Inr (st\<lparr> s_final_response := Some formatted, s_status := ''synthesized'',
                     s_messages := s_messages st @
                       [AIMessage ''Responses synthesized successfully.''] \<rparr>)))"

definition should_generate_report :: "AgentState \<Rightarrow> string" where
  "should_generate_report st =
     (if s_generate_report st then ''generate_report'' else ''format_output'')"

definition no_report_agent :: string where
  "no_report_agent = ''<AgentType.REPORT_GENERATOR: '' @ [CHR 0x27] @ ''report_generator''
                     @ [CHR 0x27] @ ''>''"

text \<open>
  The report node builds its own task (identifier from the next UUID drawn after
  planning, default priority 1) and calls the report agent outside any handler.
\<close>

definition generate_report_node ::
  "MultiAgentOrchestrator \<Rightarrow> (nat \<Rightarrow> string) \<Rightarrow> AgentState \<Rightarrow> string + AgentState" where
  "generate_report_node self uuids st =
     (case worker_agents self REPORT_GENERATOR of
        None \<Rightarrow> Inl no_report_agent
      | Some report_agent \<Rightarrow>
          (let task = \<lparr> t_task_id = ''report_'' @ take 8 (uuids (length (s_tasks st))),
                         t_agent_type = REPORT_GENERATOR,
                         t_query = ''Generate comprehensive research report'',
                         t_parameters =
                           [(''agent_responses'', PResponses (s_agent_responses st)),
                            (''title'', PStr (report_title (s_drug_name st) (s_therapy_area st))),
                            (''output_format'', PFormat (s_output_format st))],
                         priority = 1, t_status = PENDING \<rparr>
           in bind_err (report_agent task) (\<lambda>response.
                Inr (st\<lparr> s_report_path := map_of (data response) ''report_path'',
                          s_agent_responses := s_agent_responses st @ [response],
                          s_status := ''report_generated'',
                          s_messages := s_messages st @
                            [AIMessage (''Report generated: '' @
                               get_or (map_of (data response) ''report_path'') ''None'')] \<rparr>))))"

text \<open>The page sign before the report note (U+1F4C4), carried as an opaque token.\<close>

definition page_sign :: string where
  "page_sign = [CHR 0xF0, CHR 0x9F, CHR 0x93, CHR 0x84]"

definition no_join :: string where
  "no_join = ''sequence item 0: expected str instance, NoneType found''"

text \<open>The note appended when \<open>state.get("report_path")\<close> is a non-empty path.\<close>

definition report_note :: "string option \<Rightarrow> string list" where
  "report_note report_path =
     (case report_path of
        None \<Rightarrow> []
      | Some path \<Rightarrow>
          (if path \<noteq> []
           then [nl @ nl @ page_sign @ '' **Report Generated:** `'' @ path @ ''`'']
           else []))"

definition format_output_node :: "AgentState \<Rightarrow> string + AgentState" where
  "format_output_node st =
     (case s_final_response st of
        None \<Rightarrow> Inl no_join
      | Some final_response \<Rightarrow>
          (let final_parts = final_response # report_note (s_report_path st)
           in Inr (st\<lparr> s_final_response := Some (join nl final_parts),
                       s_status := ''completed'',
                       s_messages := s_messages st @ [AIMessage (join nl final_parts)] \<rparr>)))"

text \<open>The graph up to planning, up to dispatch, up to synthesis, and the compiled graph.\<close>

definition planned ::
  "MultiAgentOrchestrator \<Rightarrow> (nat \<Rightarrow> string) \<Rightarrow> AgentState \<Rightarrow> string + AgentState" where
  "planned self uuids st = bind_err (analyze_query_node self st) (plan_tasks_node self uuids)"

definition dispatched ::
  "MultiAgentOrchestrator \<Rightarrow> (nat \<Rightarrow> string) \<Rightarrow> AgentState \<Rightarrow> string + AgentState" where
  "dispatched self uuids st = bind_err (planned self uuids st) (execute_tasks_node self)"

definition synthesized ::
  "MultiAgentOrchestrator \<Rightarrow> (nat \<Rightarrow> string) \<Rightarrow> string \<Rightarrow> AgentState \<Rightarrow> string + AgentState" where
  "synthesized self uuids now st = bind_err (dispatched self uuids st) (synthesize_node self now)"

definition compiled_graph_invoke ::
  "MultiAgentOrchestrator \<Rightarrow> (nat \<Rightarrow> string) \<Rightarrow> string \<Rightarrow> AgentState \<Rightarrow> string + AgentState" where
  "compiled_graph_invoke self uuids now st =
     bind_err (synthesized self uuids now st) (\<lambda>st4.
       if should_generate_report st4 = ''generate_report''
       then bind_err (generate_report_node self uuids st4) format_output_node
       else format_output_node st4)"

text \<open>The dictionary that \<open>run\<close> returns; a key absent from it is \<open>None\<close> (or empty).\<close>

record run_result =
  r_success :: bool
  r_query :: string
  r_response :: "string option"
  r_agent_responses :: "AgentResponse list"
  r_report_path :: "string option"
  r_status :: string
  r_error :: "string option"

definition run ::
  "MultiAgentOrchestrator \<Rightarrow> (nat \<Rightarrow> string) \<Rightarrow> string \<Rightarrow> string \<Rightarrow> OutputFormat
     \<Rightarrow> bool \<Rightarrow> bool \<Rightarrow> bool \<Rightarrow> run_result" where
  "run self uuids now query output_format include_charts include_tables generate_report =
     (case compiled_graph_invoke self uuids now
             (create_initial_state query output_format include_charts include_tables
                generate_report) of
        Inr final_state \<Rightarrow>
          \<lparr> r_success = True, r_query = query, r_response = s_final_response final_state,
            r_agent_responses = s_agent_responses final_state,
            r_report_path = s_report_path final_state, r_status = s_status final_state,
            r_error = None \<rparr>
      | Inl e \<Rightarrow>
          \<lparr> r_success = False, r_query = query, r_response = None, r_agent_responses = [],
            r_report_path = None, r_status = ''failed'', r_error = Some e \<rparr>)"

section \<open>Vocabulary of the properties\<close>

text \<open>
  What a dispatched task meets in the registry: its worker fails with a message (the call
  raises, or returns a failed response that carries the message), or it succeeds.
\<close>

definition task_fails :: "(AgentType \<Rightarrow> agent option) \<Rightarrow> AgentTask \<Rightarrow> string \<Rightarrow> bool" where
  "task_fails registry task e =
     (case registry (t_agent_type task) of
        None \<Rightarrow> False
      | Some agent \<Rightarrow>
          (case agent task of
             Inl e' \<Rightarrow> e' = e
           | Inr r \<Rightarrow> status r = FAILED \<and> error r = Some e))"

definition task_succeeds :: "(AgentType \<Rightarrow> agent option) \<Rightarrow> AgentTask \<Rightarrow> bool" where
  "task_succeeds registry task =
     (case registry (t_agent_type task) of
        None \<Rightarrow> False
      | Some agent \<Rightarrow> (case agent task of Inl e \<Rightarrow> False | Inr r \<Rightarrow> status r = COMPLETED))"

definition not_report :: "AgentTask \<Rightarrow> bool" where
  "not_report task = (t_agent_type task \<noteq> REPORT_GENERATOR)"

text \<open>The collaborators of the later stages answer: the serialiser, the report agent.\<close>

definition serialises :: "MasterAgent \<Rightarrow> bool" where
  "serialises m = (\<forall>j. \<exists>s. json_dumps m j = Inr s)"

definition report_agent_returns :: "MultiAgentOrchestrator \<Rightarrow> bool" where
  "report_agent_returns self =
     (\<exists>agent. worker_agents self REPORT_GENERATOR = Some agent \<and> (\<forall>t. \<exists>r. agent t = Inr r))"

text \<open>
  A vocabulary name occurs in a query as a whole word at position \<open>i\<close>: the characters
  from \<open>i\<close> on spell the name up to case, and neither the character before nor the one
  after is a word character (or the text ends there).
\<close>

definition whole_word_at :: "string \<Rightarrow> string \<Rightarrow> nat \<Rightarrow> bool" where
  "whole_word_at name query i =
     (i + length name \<le> length query
      \<and> lower (take (length name) (drop i query)) = lower name
      \<and> (i = 0 \<or> \<not> is_word (query ! (i - 1)))
      \<and> (i + length name = length query \<or> \<not> is_word (query ! (i + length name))))"

definition occurs_word :: "string \<Rightarrow> string \<Rightarrow> bool" where
  "occurs_word name query = list_ex (whole_word_at name query) [0..<Suc (length query)]"

text \<open>
  The same at a cursor of the matcher, and the cursor that a search started with \<open>prev\<close>
  before the text \<open>s\<close> has at position \<open>k\<close>.
\<close>

definition word_here :: "string \<Rightarrow> cursor \<Rightarrow> bool" where
  "word_here name cur =
     (length name \<le> length (snd cur)
      \<and> lower (take (length name) (snd cur)) = lower name
      \<and> (opt_word (fst cur) = False)
      \<and> (case drop (length name) (snd cur) of [] \<Rightarrow> True | c # cs \<Rightarrow> is_word c = False))"

definition cursor_from :: "char option \<Rightarrow> string \<Rightarrow> nat \<Rightarrow> cursor" where
  "cursor_from prev s k = (if k = 0 then prev else Some (s ! (k - 1)), drop k s)"

text \<open>A name that starts and ends with a word character, as all vocabulary names do.\<close>

definition wordlike :: "string \<Rightarrow> bool" where
  "wordlike name = (name \<noteq> [] \<and> is_word (hd name) \<and> is_word (last name))"

text \<open>The text generator is absent, or raises on every prompt.\<close>

definition llm_unavailable :: "MasterAgent \<Rightarrow> bool" where
  "llm_unavailable m =
     (case llm m of None \<Rightarrow> True | Some invoke \<Rightarrow> (\<forall>prompt. \<exists>e. invoke prompt = Inl e))"

section \<open>Sample configurations\<close>

text \<open>
  A master agent without text generator, whose runtime enumerates sets in insertion order
  and serialises every dictionary; used to run the definitions on concrete inputs.
\<close>

definition plain_master :: MasterAgent where
  "plain_master = \<lparr> llm = None, agent_order = (\<lambda>xs. xs), ref_order = (\<lambda>xs. xs),
                     json_dumps = (\<lambda>j. Inr ''{}'') \<rparr>"

text \<open>A master agent whose text generator raises on every prompt.\<close>

definition offline_master :: MasterAgent where
  "offline_master = \<lparr> llm = Some (\<lambda>prompt. Inl ''rate limited''), agent_order = (\<lambda>xs. xs),
                       ref_order = (\<lambda>xs. xs), json_dumps = (\<lambda>j. Inr ''{}'') \<rparr>"

definition sample_uuids :: "nat \<Rightarrow> string" where
  "sample_uuids n = show_nat n @ ''f3a9c2d4e5b60718''"

text \<open>A worker that always answers, a worker that always raises, and registries of them.\<close>

definition steady_worker :: "AgentType \<Rightarrow> worker" where
  "steady_worker ty =
     \<lparr> w_agent_type = ty,
       process_query = (\<lambda>q ps. Inr \<lparr> res_data = Some [(''report_path'', ''./reports/r.pdf'')],
                                      res_summary = Some (''# Findings'' @ nl @ ''All good.''),
                                      res_tables = None, res_charts = None,
                                      res_references = Some [''UN Comtrade Database''] \<rparr>),
       elapsed_ms = (\<lambda>t. 7) \<rparr>"

definition failing_worker :: "AgentType \<Rightarrow> worker" where
  "failing_worker ty =
     \<lparr> w_agent_type = ty, process_query = (\<lambda>q ps. Inl ''source unavailable''),
       elapsed_ms = (\<lambda>t. 3) \<rparr>"

definition registry_of :: "(AgentType \<Rightarrow> worker) \<Rightarrow> AgentType \<Rightarrow> agent option" where
  "registry_of workers ty = (if ty = MASTER then None else Some (BaseAgent_execute (workers ty)))"

definition steady_orchestrator :: MultiAgentOrchestrator where
  "steady_orchestrator = \<lparr> master_agent = plain_master, worker_agents = registry_of steady_worker \<rparr>"


text \<open>A registry in which the patent worker always raises and every other worker answers.\<close>

definition patent_down :: MultiAgentOrchestrator where
  "patent_down =
     \<lparr> master_agent = plain_master,
       worker_agents = registry_of (\<lambda>ty. if ty = PATENT then failing_worker ty
                                            else steady_worker ty) \<rparr>"

definition reportless_orchestrator :: MultiAgentOrchestrator where
  "reportless_orchestrator =
     \<lparr> master_agent = plain_master,
       worker_agents = (\<lambda>ty. if ty = REPORT_GENERATOR then None
                              else registry_of steady_worker ty) \<rparr>"

definition sample_now :: string where
  "sample_now = ''2026-01-01T09:00:00''"

definition sample_later :: string where
  "sample_later = ''2026-01-01T09:00:01''"

text \<open>Two completed results that cite the same source, and a failed one.\<close>

definition sample_results :: "AgentResponse list" where
  "sample_results =
     [\<lparr> agent_type = EXIM, task_id = ''task_1'', status = COMPLETED, data = [],
        summary = ''# Trade'' @ nl @ ''  Exports grew.'', tables = [], charts = [],
        references = [''UN Comtrade Database''], execution_time_ms = 5, error = None \<rparr>,
      \<lparr> agent_type = PATENT, task_id = ''task_2'', status = FAILED, data = [],
        summary = [], tables = [], charts = [], references = [],
        execution_time_ms = 0, error = Some ''source unavailable'' \<rparr>,
      \<lparr> agent_type = IQVIA, task_id = ''task_3'', status = COMPLETED, data = [],
        summary = ''Market is stable.'', tables = [], charts = [],
        references = [''UN Comtrade Database''], execution_time_ms = 4, error = None \<rparr>]"

text \<open>An analysis that found the patent intent before the market intent.\<close>

definition patent_then_market :: analysis where
  "patent_then_market =
     \<lparr> a_original_query = ''patent and market size'', a_drug_name = None,
       a_therapy_area = None, a_intents = [''patent_analysis'', ''market_analysis''],
       a_required_agents = [PATENT, IQVIA], a_needs_report = False,
       a_parameters = [(''drug_name'', PNone), (''therapy_area'', PNone),
                       (''query'', PStr ''patent and market size'')] \<rparr>"

section \<open>Properties of analysis and planning\<close>

lemma intent_names_distinct: "distinct (map fst intent_patterns)"
  by (simp add: intent_patterns_def)

lemma matched_intents_distinct: "distinct (matched_intents s)"
  unfolding matched_intents_def using intent_names_distinct by (rule distinct_map_filter)

lemma matched_intents_empty_iff:
  "(matched_intents s = []) =
   (\<forall>x \<in> set intent_patterns. \<forall>p \<in> set (snd x). re_search False p s = None)"
  by (auto simp: matched_intents_def filter_empty_conv list_ex_iff)

lemma a_intents_analyze:
  "a_intents (analyze_query self q) =
   (if matched_intents (lower q) = [] then default_intents else matched_intents (lower q))"
  by (simp add: analyze_query_def Let_def)

lemma planned_unsorted_length:
  "length (planned_unsorted uuids a)
   = length (a_required_agents a) + (if a_needs_report a then 1 else 0)"
  by (simp add: planned_unsorted_def worker_tasks_def)

lemma create_task_plan_length:
  "length (create_task_plan uuids a)
   = length (a_required_agents a) + (if a_needs_report a then 1 else 0)"
  by (simp add: create_task_plan_def planned_unsorted_length)

lemma create_task_plan_nonempty:
  assumes "a_required_agents a \<noteq> []"
  shows "create_task_plan uuids a \<noteq> []"
proof
  assume "create_task_plan uuids a = []"
  then have "length (create_task_plan uuids a) = 0"
    by simp
  with assms show False
    by (simp add: create_task_plan_length)
qed

lemma analyze_query_node_returns:
  "\<exists>st1. analyze_query_node self st = Inr st1
      \<and> s_query_intent st1
          = Some (join '', '' (a_intents (analyze_query (master_agent self) (s_user_query st))))
      \<and> s_generate_report st1
          = (a_needs_report (analyze_query (master_agent self) (s_user_query st))
             \<or> s_generate_report st)
      \<and> s_user_query st1 = s_user_query st
      \<and> s_agent_responses st1 = s_agent_responses st
      \<and> s_output_format st1 = s_output_format st"
  by (simp add: analyze_query_node_def Let_def)

lemma determine_required_agents_returns:
  assumes "s_query_intent st = Some qi"
  shows "\<exists>agents. determine_required_agents st = Inr agents \<and> agents \<noteq> []
           \<and> REPORT_GENERATOR \<notin> set agents \<and> MASTER \<notin> set agents"
proof -
  let ?found = "List.map_filter (\<lambda>intent. map_of intent_mapping (strip intent)) (split '', '' qi)"
  have rng: "\<And>k v. map_of intent_mapping k = Some v \<Longrightarrow> v \<noteq> REPORT_GENERATOR \<and> v \<noteq> MASTER"
    by (auto simp: intent_mapping_def split: if_splits)
  have "REPORT_GENERATOR \<notin> set ?found \<and> MASTER \<notin> set ?found"
    using rng by (fastforce simp: List.map_filter_def)
  then show ?thesis
    using assms by (simp add: determine_required_agents_def Let_def)
qed

lemma plan_tasks_node_returns:
  assumes "s_query_intent st = Some qi" and "determine_required_agents st = Inr agents"
  shows "\<exists>st' a. plan_tasks_node self uuids st = Inr st'
           \<and> s_tasks st' = create_task_plan uuids a
           \<and> a_required_agents a = agents \<and> a_needs_report a = s_generate_report st
           \<and> s_generate_report st' = s_generate_report st
           \<and> s_agent_responses st' = s_agent_responses st
           \<and> s_user_query st' = s_user_query st
           \<and> s_output_format st' = s_output_format st"
proof -
  let ?a = "\<lparr> a_original_query = s_user_query st, a_drug_name = s_drug_name st,
              a_therapy_area = s_therapy_area st, a_intents = split '', '' qi,
              a_required_agents = agents, a_needs_report = s_generate_report st,
              a_parameters = s_parameters st \<rparr>"
  let ?st = "st\<lparr> s_tasks := create_task_plan uuids ?a, s_current_task_index := 0,
                 s_status := ''planned'',
                 s_messages := s_messages st @
                   [AIMessage (''Created '' @ show_nat (length (create_task_plan uuids ?a))
                               @ '' tasks for execution.'')] \<rparr>"
  have "plan_tasks_node self uuids st = Inr ?st"
    using assms by (simp add: plan_tasks_node_def bind_err_def Let_def del: show_nat.simps)
  moreover have "s_tasks ?st = create_task_plan uuids ?a \<and> a_required_agents ?a = agents
      \<and> a_needs_report ?a = s_generate_report st \<and> s_generate_report ?st = s_generate_report st
      \<and> s_agent_responses ?st = s_agent_responses st \<and> s_user_query ?st = s_user_query st
      \<and> s_output_format ?st = s_output_format st"
    by simp
  ultimately show ?thesis
    by blast
qed

lemma planned_returns:
  "\<exists>st'. planned self uuids st = Inr st' \<and> s_tasks st' \<noteq> []"
proof -
  obtain st1 qi where st1: "analyze_query_node self st = Inr st1"
    and qi: "s_query_intent st1 = Some qi"
    using analyze_query_node_returns [of self st] by blast
  obtain agents where ag: "determine_required_agents st1 = Inr agents" and ne: "agents \<noteq> []"
    using determine_required_agents_returns [OF qi] by blast
  obtain st2 a where pl: "plan_tasks_node self uuids st1 = Inr st2"
    and ts: "s_tasks st2 = create_task_plan uuids a" and a: "a_required_agents a = agents"
    using plan_tasks_node_returns [OF qi ag, of self uuids] by blast
  have "create_task_plan uuids a \<noteq> []"
    using a ne create_task_plan_nonempty by blast
  then show ?thesis
    using st1 pl ts by (simp add: planned_def bind_err_def)
qed

text \<open>
  Claim C5. For every query the analysis returns a non-empty list of intents without
  duplicates; when no intent pattern matches the lowercased query the list is exactly the
  default \<open>[market_analysis, clinical_trials, patent_analysis]\<close>; and the workflow's plan
  for the query is returned and is non-empty.
\<close>

theorem intents_never_empty:
  "a_intents (analyze_query self q) \<noteq> []
   \<and> distinct (a_intents (analyze_query self q))
   \<and> ((\<forall>x \<in> set intent_patterns. \<forall>p \<in> set (snd x). re_search False p (lower q) = None)
        \<longrightarrow> a_intents (analyze_query self q)
            = [''market_analysis'', ''clinical_trials'', ''patent_analysis''])
   \<and> (\<exists>st. planned orch uuids (create_initial_state q fmt ic it gr) = Inr st \<and> s_tasks st \<noteq> [])"
  using matched_intents_distinct [of "lower q"] matched_intents_empty_iff [of "lower q"]
    planned_returns [of orch uuids]
  by (simp add: a_intents_analyze default_intents_def)

theorem intents_never_empty_witness:
  "matched_intents (lower ''Hello?'') = []
   \<and> a_intents (analyze_query plain_master ''Hello?'')
       = [''market_analysis'', ''clinical_trials'', ''patent_analysis'']"
proof -
  have h: "matched_intents (lower ''Hello?'') = []"
    by code_simp
  then have "\<forall>x \<in> set intent_patterns. \<forall>p \<in> set (snd x).
               re_search False p (lower ''Hello?'') = None"
    by (simp only: matched_intents_empty_iff)
  then show ?thesis
    using h intents_never_empty [of plain_master "''Hello?''"] by blast
qed

lemma insort_key_snoc:
  "f x \<le> f y \<Longrightarrow> insort_key f x (zs @ [y]) = insort_key f x zs @ [y]"
  by (induction zs) auto

lemma sort_key_snoc:
  "\<forall>x \<in> set xs. f x \<le> f y \<Longrightarrow> sort_key f (xs @ [y]) = sort_key f xs @ [y]"
  by (induction xs) (auto simp: insort_key_snoc)

lemma worker_task_fields:
  "t_agent_type (worker_task a u ty) = ty"
  "priority (worker_task a u ty) = get_task_priority ty"
  by (simp_all add: worker_task_def)

lemma report_task_fields:
  "t_agent_type (report_task a u) = REPORT_GENERATOR"
  "priority (report_task a u) = 5"
  by (simp_all add: report_task_def)

lemma get_task_priority_le: "get_task_priority ty \<le> 5"
  by (cases ty) simp_all

lemma worker_tasks_types:
  "map t_agent_type (worker_tasks uuids a) = a_required_agents a"
proof -
  have "map t_agent_type (worker_tasks uuids a) = map snd (enumerate 0 (a_required_agents a))"
    by (simp add: worker_tasks_def worker_task_fields case_prod_unfold comp_def)
  then show ?thesis
    by simp
qed

lemma worker_tasks_priority:
  "t \<in> set (worker_tasks uuids a) \<Longrightarrow> priority t = get_task_priority (t_agent_type t)"
  by (auto simp: worker_tasks_def worker_task_fields)

lemma planned_unsorted_eq:
  "planned_unsorted uuids a = worker_tasks uuids a
     @ (if a_needs_report a then [report_task a (uuids (length (a_required_agents a)))] else [])"
  by (simp add: planned_unsorted_def)

lemma planned_priority:
  "t \<in> set (planned_unsorted uuids a) \<Longrightarrow> priority t = get_task_priority (t_agent_type t)"
  by (auto simp: planned_unsorted_eq worker_tasks_priority report_task_fields split: if_splits)

lemma create_task_plan_report:
  assumes "a_needs_report a"
  shows "create_task_plan uuids a
         = sort_key priority (worker_tasks uuids a)
           @ [report_task a (uuids (length (a_required_agents a)))]"
proof -
  have "\<forall>t \<in> set (worker_tasks uuids a).
          priority t \<le> priority (report_task a (uuids (length (a_required_agents a))))"
    by (simp add: worker_tasks_priority report_task_fields get_task_priority_le)
  then show ?thesis
    using assms by (simp add: create_task_plan_def planned_unsorted_eq sort_key_snoc)
qed

lemma report_count_workers:
  assumes "REPORT_GENERATOR \<notin> set (a_required_agents a)"
  shows "filter (\<lambda>t. t_agent_type t = REPORT_GENERATOR) (sort_key priority (worker_tasks uuids a)) = []"
proof -
  have "\<forall>t \<in> set (worker_tasks uuids a). t_agent_type t \<noteq> REPORT_GENERATOR"
  proof
    fix t assume "t \<in> set (worker_tasks uuids a)"
    then have "t_agent_type t \<in> set (map t_agent_type (worker_tasks uuids a))"
      by simp
    with assms show "t_agent_type t \<noteq> REPORT_GENERATOR"
      by (auto simp: worker_tasks_types)
  qed
  then show ?thesis
    by (simp add: filter_empty_conv)
qed

text \<open>
  Claim C3. Whenever the merged report flag is true (the caller passed
  \<open>generate_report = True\<close>, or the analysis detected a report need in the query), the
  planning stage returns a task list that holds exactly one task for the report worker,
  and that task is the last of the sorted plan, however many other tasks there are.
\<close>

theorem report_task_once_and_last:
  assumes "gr \<or> a_needs_report (analyze_query (master_agent self) q)"
  shows "\<exists>st. planned self uuids (create_initial_state q fmt ic it gr) = Inr st
           \<and> s_generate_report st
           \<and> length (filter (\<lambda>t. t_agent_type t = REPORT_GENERATOR) (s_tasks st)) = 1
           \<and> s_tasks st \<noteq> []
           \<and> t_agent_type (last (s_tasks st)) = REPORT_GENERATOR"
proof -
  let ?st0 = "create_initial_state q fmt ic it gr"
  obtain st1 qi where st1: "analyze_query_node self ?st0 = Inr st1"
    and qi: "s_query_intent st1 = Some qi"
    and flag: "s_generate_report st1
               = (a_needs_report (analyze_query (master_agent self) (s_user_query ?st0))
                  \<or> s_generate_report ?st0)"
    using analyze_query_node_returns [of self ?st0] by blast
  have merged: "s_generate_report st1"
    using assms flag by (auto simp: create_initial_state_def)
  obtain agents where ag: "determine_required_agents st1 = Inr agents"
    and norep: "REPORT_GENERATOR \<notin> set agents"
    using determine_required_agents_returns [OF qi] by blast
  obtain st2 a where pl: "plan_tasks_node self uuids st1 = Inr st2"
    and ts: "s_tasks st2 = create_task_plan uuids a" and a: "a_required_agents a = agents"
    and nr: "a_needs_report a = s_generate_report st1"
    and keep: "s_generate_report st2 = s_generate_report st1"
    using plan_tasks_node_returns [OF qi ag, of self uuids] by blast
  have plan: "s_tasks st2 = sort_key priority (worker_tasks uuids a)
                @ [report_task a (uuids (length (a_required_agents a)))]"
    using ts nr merged by (simp add: create_task_plan_report)
  have "filter (\<lambda>t. t_agent_type t = REPORT_GENERATOR) (sort_key priority (worker_tasks uuids a)) = []"
    using norep a by (simp add: report_count_workers)
  then have one: "length (filter (\<lambda>t. t_agent_type t = REPORT_GENERATOR) (s_tasks st2)) = 1"
    by (simp add: plan report_task_fields)
  have "planned self uuids ?st0 = Inr st2"
    using st1 pl by (simp add: planned_def bind_err_def)
  then show ?thesis
    using one keep merged plan by (simp add: report_task_fields)
qed

theorem report_task_once_and_last_witness:
  "\<exists>st. planned steady_orchestrator sample_uuids
           (create_initial_state ''Hello?'' TEXT True True True) = Inr st
        \<and> s_generate_report st
        \<and> length (filter (\<lambda>t. t_agent_type t = REPORT_GENERATOR) (s_tasks st)) = 1
        \<and> s_tasks st \<noteq> []
        \<and> t_agent_type (last (s_tasks st)) = REPORT_GENERATOR"
  using report_task_once_and_last [of True steady_orchestrator "''Hello?''" sample_uuids TEXT True True]
  by simp

text \<open>
  The workflow plans from its own list of agents. Handing the analysis of \<open>analyze_query\<close>
  straight to the planner is another matter: that analysis maps the report intent to the
  report worker too, and the plan then holds two report tasks.
\<close>

lemma planner_on_raw_analysis_example:
  "map t_agent_type (create_task_plan sample_uuids (analyze_query plain_master ''generate report''))
   = [REPORT_GENERATOR, REPORT_GENERATOR]"
  by code_simp

text \<open>
  Claim C4. The planner's task list is sorted by priority ascending, and the sort is
  stable (tasks of equal priority keep their insertion order); priority beats discovery
  order: a task for the market worker (priority 1) stands before a task for the patent
  worker (priority 2), also when the patent intent was found first.
\<close>

theorem plan_sorted_stable:
  "sorted (map priority (create_task_plan uuids a))
   \<and> (\<forall>k. filter (\<lambda>t. priority t = k) (create_task_plan uuids a)
           = filter (\<lambda>t. priority t = k) (planned_unsorted uuids a))
   \<and> (\<forall>i j. i < length (create_task_plan uuids a) \<and> j < length (create_task_plan uuids a)
          \<and> t_agent_type (create_task_plan uuids a ! i) = IQVIA
          \<and> t_agent_type (create_task_plan uuids a ! j) = PATENT \<longrightarrow> i < j)"
proof (intro conjI allI impI)
  show srt: "sorted (map priority (create_task_plan uuids a))"
    by (simp add: create_task_plan_def)
  show "filter (\<lambda>t. priority t = k) (create_task_plan uuids a)
        = filter (\<lambda>t. priority t = k) (planned_unsorted uuids a)" for k
    by (simp add: create_task_plan_def sort_key_stable)
  fix i j
  let ?plan = "create_task_plan uuids a"
  assume h: "i < length ?plan \<and> j < length ?plan
             \<and> t_agent_type (?plan ! i) = IQVIA \<and> t_agent_type (?plan ! j) = PATENT"
  have pr: "priority t = get_task_priority (t_agent_type t)" if "t \<in> set ?plan" for t
    using that planned_priority by (simp add: create_task_plan_def)
  have pi: "priority (?plan ! i) = 1" and pj: "priority (?plan ! j) = 2"
    using h pr [of "?plan ! i"] pr [of "?plan ! j"] by simp_all
  show "i < j"
  proof (rule ccontr)
    assume "\<not> i < j"
    then have "j \<le> i" by simp
    moreover have "i < length (map priority ?plan)"
      using h by simp
    ultimately have "map priority ?plan ! j \<le> map priority ?plan ! i"
      using srt sorted_nth_mono by blast
    then show False
      using h pi pj by simp
  qed
qed

theorem plan_sorted_stable_witness:
  "map t_agent_type (planned_unsorted sample_uuids patent_then_market) = [PATENT, IQVIA]
   \<and> t_agent_type (create_task_plan sample_uuids patent_then_market ! 0) = IQVIA
   \<and> t_agent_type (create_task_plan sample_uuids patent_then_market ! 1) = PATENT
   \<and> (0::nat) < 1"
proof -
  have 1: "map t_agent_type (planned_unsorted sample_uuids patent_then_market) = [PATENT, IQVIA]"
    by (simp add: planned_unsorted_eq worker_tasks_types patent_then_market_def)
  have 2: "map t_agent_type (create_task_plan sample_uuids patent_then_market) = [IQVIA, PATENT]"
    by code_simp
  have 3: "length (create_task_plan sample_uuids patent_then_market) = 2"
    by (simp add: create_task_plan_length patent_then_market_def)
  have 4: "t_agent_type (create_task_plan sample_uuids patent_then_market ! 0) = IQVIA"
    using 2 3 by (metis nth_map nth_Cons_0 zero_less_numeral)
  have 5: "t_agent_type (create_task_plan sample_uuids patent_then_market ! 1) = PATENT"
    using 2 3 by (metis nth_map nth_Cons_0 nth_Cons_Suc One_nat_def one_less_numeral_iff semiring_norm(76))
  show ?thesis
    using 1 3 4 5 plan_sorted_stable [of sample_uuids patent_then_market] by simp
qed


section \<open>Properties of dispatch and of the run\<close>

lemma execute_tasks_append:
  "execute_tasks reg (xs @ ys) = execute_tasks reg xs @ execute_tasks reg ys"
  by (induction xs) (auto split: option.splits sum.splits)

lemma execute_tasks_filter:
  "execute_tasks reg (filter not_report ts) = execute_tasks reg ts"
  by (induction ts) (auto simp: not_report_def split: option.splits)

lemma execute_tasks_good:
  assumes "\<forall>t \<in> set ts. task_succeeds reg t" and "\<forall>t \<in> set ts. not_report t"
  shows "length (execute_tasks reg ts) = length ts
         \<and> (\<forall>r \<in> set (execute_tasks reg ts). status r = COMPLETED)"
  using assms
  by (induction ts) (auto simp: task_succeeds_def not_report_def split: option.splits sum.splits)

lemma execute_tasks_bad:
  assumes "task_fails reg t e" and "not_report t"
  shows "\<exists>r. execute_tasks reg [t] = [r] \<and> status r = FAILED \<and> error r = Some e"
  using assms
  by (auto simp: task_fails_def not_report_def failed_response_def split: option.splits sum.splits)

lemma isolation_core:
  assumes bad: "task_fails reg bad e"
    and good: "\<forall>t \<in> set (pre @ post). task_succeeds reg t"
    and nr: "\<forall>t \<in> set (pre @ [bad] @ post). not_report t"
  shows "length (execute_tasks reg (pre @ [bad] @ post)) = Suc (length pre + length post)
         \<and> length (filter (\<lambda>r. status r = COMPLETED) (execute_tasks reg (pre @ [bad] @ post)))
             = length pre + length post
         \<and> filter (\<lambda>r. status r = FAILED) (execute_tasks reg (pre @ [bad] @ post))
             = [execute_tasks reg (pre @ [bad] @ post) ! length pre]
         \<and> error (execute_tasks reg (pre @ [bad] @ post) ! length pre) = Some e"
proof -
  obtain r where r: "execute_tasks reg [bad] = [r]" "status r = FAILED" "error r = Some e"
    using execute_tasks_bad [OF bad] nr by auto
  have gp: "length (execute_tasks reg pre) = length pre
            \<and> (\<forall>x \<in> set (execute_tasks reg pre). status x = COMPLETED)"
    using execute_tasks_good [of pre reg] good nr by simp
  have gq: "length (execute_tasks reg post) = length post
            \<and> (\<forall>x \<in> set (execute_tasks reg post). status x = COMPLETED)"
    using execute_tasks_good [of post reg] good nr by simp
  have eq: "execute_tasks reg (pre @ [bad] @ post)
            = execute_tasks reg pre @ [r] @ execute_tasks reg post"
    using execute_tasks_append [of reg pre "[bad] @ post"] execute_tasks_append [of reg "[bad]" post]
    by (simp only: r)
  have fp: "filter (\<lambda>x. status x = COMPLETED) (execute_tasks reg pre) = execute_tasks reg pre"
    "filter (\<lambda>x. status x = FAILED) (execute_tasks reg pre) = []"
    using gp by (auto simp: filter_empty_conv)
  have fq: "filter (\<lambda>x. status x = COMPLETED) (execute_tasks reg post) = execute_tasks reg post"
    "filter (\<lambda>x. status x = FAILED) (execute_tasks reg post) = []"
    using gq by (auto simp: filter_empty_conv)
  have nth: "(execute_tasks reg pre @ [r] @ execute_tasks reg post) ! length pre = r"
    using gp by (simp add: nth_append)
  show ?thesis
    unfolding eq nth using gp gq fp fq r by simp
qed


lemma planned_state:
  "\<exists>st2. planned self uuids st0 = Inr st2
      \<and> s_generate_report st2
          = (a_needs_report (analyze_query (master_agent self) (s_user_query st0))
             \<or> s_generate_report st0)
      \<and> s_agent_responses st2 = s_agent_responses st0
      \<and> s_user_query st2 = s_user_query st0
      \<and> s_output_format st2 = s_output_format st0"
proof -
  obtain st1 qi where st1: "analyze_query_node self st0 = Inr st1"
    and qi: "s_query_intent st1 = Some qi"
    and keep1: "s_generate_report st1
          = (a_needs_report (analyze_query (master_agent self) (s_user_query st0))
             \<or> s_generate_report st0)"
      "s_user_query st1 = s_user_query st0" "s_agent_responses st1 = s_agent_responses st0"
      "s_output_format st1 = s_output_format st0"
    using analyze_query_node_returns [of self st0] by blast
  obtain agents where ag: "determine_required_agents st1 = Inr agents"
    using determine_required_agents_returns [OF qi] by blast
  obtain st2 where pl: "plan_tasks_node self uuids st1 = Inr st2"
    and keep2: "s_generate_report st2 = s_generate_report st1"
      "s_agent_responses st2 = s_agent_responses st1" "s_user_query st2 = s_user_query st1"
      "s_output_format st2 = s_output_format st1"
    using plan_tasks_node_returns [OF qi ag, of self uuids] by blast
  have "planned self uuids st0 = Inr st2"
    using st1 pl by (simp add: planned_def bind_err_def)
  then show ?thesis
    using keep1 keep2 by simp
qed

lemma dispatched_state:
  assumes "planned self uuids st0 = Inr st2"
  shows "\<exists>st3. dispatched self uuids st0 = Inr st3
      \<and> s_agent_responses st3
          = s_agent_responses st2 @ execute_tasks (worker_agents self) (s_tasks st2)
      \<and> s_generate_report st3 = s_generate_report st2
      \<and> s_tasks st3 = s_tasks st2
      \<and> s_user_query st3 = s_user_query st2
      \<and> s_output_format st3 = s_output_format st2"
  using assms
  by (simp add: dispatched_def bind_err_def execute_tasks_node_def Let_def del: show_nat.simps)

lemma format_response_returns:
  assumes "fmt = JSON \<longrightarrow> serialises m"
  shows "\<exists>s. format_response m (synthesize_responses m now q rs fmt) it ic = Inr s"
proof (cases "fmt = JSON")
  case True
  then have "serialises m"
    using assms by simp
  then show ?thesis
    using True by (simp add: format_response_def synthesize_responses_def Let_def serialises_def)
next
  case False
  then show ?thesis
    by (simp add: format_response_def synthesize_responses_def Let_def)
qed

lemma synthesize_node_keeps:
  assumes "synthesize_node self now st = Inr st4"
  shows "(\<exists>fr. s_final_response st4 = Some fr)
      \<and> s_generate_report st4 = s_generate_report st
      \<and> s_agent_responses st4 = s_agent_responses st
      \<and> s_tasks st4 = s_tasks st"
  using assms
  by (auto simp: synthesize_node_def bind_err_def Let_def split: sum.splits)

lemma synthesize_node_returns:
  assumes "s_output_format st = JSON \<longrightarrow> serialises (master_agent self)"
  shows "\<exists>st4. synthesize_node self now st = Inr st4"
proof -
  obtain s where "format_response (master_agent self)
      (synthesize_responses (master_agent self) now (s_user_query st) (s_agent_responses st)
         (s_output_format st)) (s_include_tables st) (s_include_charts st) = Inr s"
    using format_response_returns [OF assms] by blast
  then show ?thesis
    by (simp add: synthesize_node_def bind_err_def Let_def)
qed

lemma generate_report_node_keeps:
  assumes "generate_report_node self uuids st = Inr st5"
  shows "s_final_response st5 = s_final_response st
      \<and> (\<exists>r. s_agent_responses st5 = s_agent_responses st @ [r])"
  using assms
  by (auto simp: generate_report_node_def bind_err_def Let_def split: option.splits sum.splits)

lemma generate_report_node_returns:
  assumes "report_agent_returns self"
  shows "\<exists>st5. generate_report_node self uuids st = Inr st5"
proof -
  obtain agent where a: "worker_agents self REPORT_GENERATOR = Some agent"
    and r: "\<forall>t. \<exists>r. agent t = Inr r"
    using assms by (auto simp: report_agent_returns_def)
  let ?task = "\<lparr> t_task_id = ''report_'' @ take 8 (uuids (length (s_tasks st))),
                  t_agent_type = REPORT_GENERATOR,
                  t_query = ''Generate comprehensive research report'',
                  t_parameters =
                    [(''agent_responses'', PResponses (s_agent_responses st)),
                     (''title'', PStr (report_title (s_drug_name st) (s_therapy_area st))),
                     (''output_format'', PFormat (s_output_format st))],
                  priority = 1, t_status = PENDING \<rparr>"
  obtain resp where "agent ?task = Inr resp"
    using r by blast
  then show ?thesis
    using a by (simp add: generate_report_node_def bind_err_def Let_def)
qed

lemma format_output_node_keeps:
  assumes "format_output_node st = Inr st6"
  shows "s_status st6 = ''completed'' \<and> (\<exists>fr. s_final_response st6 = Some fr)
      \<and> s_agent_responses st6 = s_agent_responses st"
  using assms
  by (auto simp: format_output_node_def Let_def split: option.splits)

lemma format_output_node_returns:
  assumes "s_final_response st = Some fr"
  shows "\<exists>st6. format_output_node st = Inr st6"
  using assms by (simp add: format_output_node_def Let_def)

lemma invoke_completed:
  assumes "compiled_graph_invoke self uuids now st0 = Inr st"
  shows "s_status st = ''completed'' \<and> (\<exists>fr. s_final_response st = Some fr)"
proof -
  obtain st4 where fin: "(if should_generate_report st4 = ''generate_report''
       then bind_err (generate_report_node self uuids st4) format_output_node
       else format_output_node st4) = Inr st"
    using assms by (auto simp: compiled_graph_invoke_def bind_err_def split: sum.splits)
  then obtain st5 where "format_output_node st5 = Inr st"
    by (auto simp: bind_err_def split: if_splits sum.splits)
  then show ?thesis
    using format_output_node_keeps by blast
qed

lemma invoke_returns:
  assumes pl: "planned self uuids st0 = Inr st2"
    and js: "s_output_format st0 = JSON \<longrightarrow> serialises (master_agent self)"
    and rp: "s_generate_report st2 \<longrightarrow> report_agent_returns self"
  shows "\<exists>st. compiled_graph_invoke self uuids now st0 = Inr st
           \<and> prefix (s_agent_responses st2 @ execute_tasks (worker_agents self) (s_tasks st2))
                (s_agent_responses st)"
proof -
  obtain st3 where d: "dispatched self uuids st0 = Inr st3"
    and g3: "s_generate_report st3 = s_generate_report st2"
    and f3: "s_output_format st3 = s_output_format st2"
    and r3: "s_agent_responses st3
             = s_agent_responses st2 @ execute_tasks (worker_agents self) (s_tasks st2)"
    using dispatched_state [OF pl] by blast
  have "s_output_format st2 = s_output_format st0"
    using planned_state [of self uuids st0] pl by auto
  then have "s_output_format st3 = JSON \<longrightarrow> serialises (master_agent self)"
    using js f3 by simp
  then obtain st4 where s4: "synthesize_node self now st3 = Inr st4"
    using synthesize_node_returns by blast
  then obtain fr where fr: "s_final_response st4 = Some fr"
    and g4: "s_generate_report st4 = s_generate_report st3"
    and r4: "s_agent_responses st4 = s_agent_responses st3"
    using synthesize_node_keeps by blast
  have syn: "synthesized self uuids now st0 = Inr st4"
    using d s4 by (simp add: synthesized_def bind_err_def)
  show ?thesis
  proof (cases "s_generate_report st4")
    case True
    then have "report_agent_returns self"
      using rp g3 g4 by simp
    then obtain st5 where s5: "generate_report_node self uuids st4 = Inr st5"
      using generate_report_node_returns by blast
    then obtain r where f5: "s_final_response st5 = Some fr"
      and r5: "s_agent_responses st5 = s_agent_responses st4 @ [r]"
      using generate_report_node_keeps fr by fastforce
    then obtain st6 where s6: "format_output_node st5 = Inr st6"
      using format_output_node_returns by blast
    then have "s_agent_responses st6 = s_agent_responses st3 @ [r]"
      using format_output_node_keeps r5 r4 by fastforce
    then show ?thesis
      using syn s5 s6 True r3
      by (simp add: compiled_graph_invoke_def bind_err_def should_generate_report_def)
  next
    case False
    obtain st6 where s6: "format_output_node st4 = Inr st6"
      using format_output_node_returns [OF fr] by blast
    then have "s_agent_responses st6 = s_agent_responses st3"
      using format_output_node_keeps r4 by fastforce
    then show ?thesis
      using syn s6 False r3
      by (simp add: compiled_graph_invoke_def bind_err_def should_generate_report_def)
  qed
qed


lemma planned_initial_responses:
  assumes "planned self uuids (create_initial_state q fmt ic it gr) = Inr st"
  shows "s_agent_responses st = [] \<and> s_output_format st = fmt"
  using planned_state [of self uuids "create_initial_state q fmt ic it gr"] assms
  by (auto simp: create_initial_state_def)

lemma run_of_invoke:
  assumes "compiled_graph_invoke self uuids now (create_initial_state q fmt ic it gr) = Inr st"
  shows "r_success (run self uuids now q fmt ic it gr)
       \<and> r_status (run self uuids now q fmt ic it gr) = ''completed''
       \<and> r_agent_responses (run self uuids now q fmt ic it gr) = s_agent_responses st"
  using assms invoke_completed [OF assms] by (simp add: run_def)


lemma serialises_plain: "serialises plain_master"
  by (simp add: serialises_def plain_master_def)

text \<open>
  Claim C2. Worker failure is isolated per task. Take the plan of a run, and let its
  non-report tasks be \<open>N\<close> tasks of which exactly one meets a worker that fails (it raises,
  or \<open>BaseAgent.execute\<close> turns the exception of \<open>_process_query\<close> into a failed response)
  while the other \<open>N - 1\<close> succeed. Then dispatch yields \<open>N\<close> results, \<open>N - 1\<close> of them
  completed and exactly one failed, at the failing task's position and carrying the error
  message; no other task is dropped; and, the serialiser and the report agent answering
  where the run needs them, the run ends with success and status \<open>completed\<close>, its
  result list starting with the dispatched results.
\<close>

theorem worker_failure_isolated:
  assumes pl: "planned self uuids (create_initial_state q fmt ic it gr) = Inr st"
    and tasks: "filter not_report (s_tasks st) = pre @ [bad] @ post"
    and bad: "task_fails (worker_agents self) bad e"
    and good: "\<forall>t \<in> set (pre @ post). task_succeeds (worker_agents self) t"
    and js: "fmt = JSON \<longrightarrow> serialises (master_agent self)"
    and rp: "s_generate_report st \<longrightarrow> report_agent_returns self"
  shows "length (execute_tasks (worker_agents self) (s_tasks st)) = Suc (length pre + length post)
       \<and> length (filter (\<lambda>r. status r = COMPLETED) (execute_tasks (worker_agents self) (s_tasks st)))
           = length pre + length post
       \<and> filter (\<lambda>r. status r = FAILED) (execute_tasks (worker_agents self) (s_tasks st))
           = [execute_tasks (worker_agents self) (s_tasks st) ! length pre]
       \<and> error (execute_tasks (worker_agents self) (s_tasks st) ! length pre) = Some e
       \<and> r_success (run self uuids now q fmt ic it gr)
       \<and> r_status (run self uuids now q fmt ic it gr) = ''completed''
       \<and> prefix (execute_tasks (worker_agents self) (s_tasks st))
            (r_agent_responses (run self uuids now q fmt ic it gr))"
proof -
  let ?reg = "worker_agents self"
  have nr: "\<forall>t \<in> set (pre @ [bad] @ post). not_report t"
  proof
    fix t assume "t \<in> set (pre @ [bad] @ post)"
    then have "t \<in> set (filter not_report (s_tasks st))"
      using tasks by simp
    then show "not_report t"
      by simp
  qed
  have ex: "execute_tasks ?reg (s_tasks st) = execute_tasks ?reg (pre @ [bad] @ post)"
    using execute_tasks_filter [of ?reg "s_tasks st"] tasks by simp
  have core: "length (execute_tasks ?reg (pre @ [bad] @ post)) = Suc (length pre + length post)
       \<and> length (filter (\<lambda>r. status r = COMPLETED) (execute_tasks ?reg (pre @ [bad] @ post)))
           = length pre + length post
       \<and> filter (\<lambda>r. status r = FAILED) (execute_tasks ?reg (pre @ [bad] @ post))
           = [execute_tasks ?reg (pre @ [bad] @ post) ! length pre]
       \<and> error (execute_tasks ?reg (pre @ [bad] @ post) ! length pre) = Some e"
    using isolation_core [OF bad good nr] .
  have fmt: "s_output_format (create_initial_state q fmt ic it gr) = JSON
             \<longrightarrow> serialises (master_agent self)"
    using js by (simp add: create_initial_state_def)
  obtain fin where inv: "compiled_graph_invoke self uuids now
                           (create_initial_state q fmt ic it gr) = Inr fin"
    and pre: "prefix (s_agent_responses st @ execute_tasks ?reg (s_tasks st))
                (s_agent_responses fin)"
    using invoke_returns [OF pl fmt rp, of now] by blast
  have "s_agent_responses st = []"
    using planned_initial_responses [OF pl] by simp
  then have "prefix (execute_tasks ?reg (s_tasks st)) (s_agent_responses fin)"
    using pre by simp
  then show ?thesis
    using core run_of_invoke [OF inv] by (simp only: ex)
qed

theorem worker_failure_isolated_witness:
  "r_success (run patent_down sample_uuids sample_now ''Hello?'' TEXT True True False)
   \<and> r_status (run patent_down sample_uuids sample_now ''Hello?'' TEXT True True False)
       = ''completed''
   \<and> (\<exists>st. planned patent_down sample_uuids
               (create_initial_state ''Hello?'' TEXT True True False) = Inr st
          \<and> length (filter (\<lambda>r. status r = COMPLETED)
                       (execute_tasks (worker_agents patent_down) (s_tasks st))) = 2
          \<and> length (filter (\<lambda>r. status r = FAILED)
                       (execute_tasks (worker_agents patent_down) (s_tasks st))) = 1
          \<and> error (execute_tasks (worker_agents patent_down) (s_tasks st) ! 2)
              = Some ''source unavailable'')"
proof -
  let ?reg = "worker_agents patent_down"
  let ?st0 = "create_initial_state ''Hello?'' TEXT True True False"
  have ev: "case planned patent_down sample_uuids ?st0 of
              Inl e \<Rightarrow> False
            | Inr st \<Rightarrow>
                \<not> s_generate_report st
                \<and> (case filter not_report (s_tasks st) of
                      [t1, t2, t3] \<Rightarrow> task_succeeds ?reg t1 \<and> task_succeeds ?reg t2
                                       \<and> task_fails ?reg t3 ''source unavailable''
                    | _ \<Rightarrow> False)"
    by code_simp
  then obtain st t1 t2 t3 where pl: "planned patent_down sample_uuids ?st0 = Inr st"
    and nrep: "\<not> s_generate_report st"
    and ts: "filter not_report (s_tasks st) = [t1, t2] @ [t3] @ []"
    and g1: "task_succeeds ?reg t1" and g2: "task_succeeds ?reg t2"
    and b: "task_fails ?reg t3 ''source unavailable''"
    by (auto split: sum.splits list.splits)
  have good: "\<forall>t \<in> set ([t1, t2] @ []). task_succeeds ?reg t"
    using g1 g2 by simp
  have js: "TEXT = JSON \<longrightarrow> serialises (master_agent patent_down)"
    by simp
  have rp: "s_generate_report st \<longrightarrow> report_agent_returns patent_down"
    using nrep by simp
  show ?thesis
    using worker_failure_isolated [OF pl ts b good js rp, of sample_now] pl
    by (auto simp: numeral_2_eq_2)
qed

text \<open>
  Claim C6. The blocking \<open>run\<close> never raises. Either an exception escapes the compiled
  graph, and \<open>run\<close> returns the result with \<open>success = False\<close>, the error message, the
  original query and status \<open>failed\<close>; or the graph returns a final state, and \<open>run\<close>
  returns \<open>success = True\<close> with that state's final response and status \<open>completed\<close>.
\<close>

theorem run_never_raises:
  "(\<exists>e. compiled_graph_invoke self uuids now (create_initial_state q fmt ic it gr) = Inl e
        \<and> run self uuids now q fmt ic it gr
            = \<lparr> r_success = False, r_query = q, r_response = None, r_agent_responses = [],
                r_report_path = None, r_status = ''failed'', r_error = Some e \<rparr>)
   \<or> (\<exists>st fr. compiled_graph_invoke self uuids now (create_initial_state q fmt ic it gr) = Inr st
        \<and> s_final_response st = Some fr
        \<and> run self uuids now q fmt ic it gr
            = \<lparr> r_success = True, r_query = q, r_response = Some fr,
                r_agent_responses = s_agent_responses st, r_report_path = s_report_path st,
                r_status = ''completed'', r_error = None \<rparr>)"
proof (cases "compiled_graph_invoke self uuids now (create_initial_state q fmt ic it gr)")
  case (Inl e)
  then show ?thesis
    by (simp add: run_def)
next
  case (Inr st)
  then show ?thesis
    using invoke_completed [OF Inr] by (auto simp: run_def)
qed

text \<open>Both outcomes occur: a registry without report agent makes the report node raise.\<close>

lemma run_failure_example:
  "run reportless_orchestrator sample_uuids sample_now ''Hello?'' TEXT True True True
   = \<lparr> r_success = False, r_query = ''Hello?'', r_response = None, r_agent_responses = [],
       r_report_path = None, r_status = ''failed'', r_error = Some no_report_agent \<rparr>"
  by code_simp






















section \<open>Properties of the report branch\<close>

lemma contains_iff: "contains s w = (\<exists>pre post. s = pre @ w @ post)"
proof (induction s)
  case Nil
  then show ?case by auto
next
  case (Cons c cs)
  show ?case
  proof
    assume "contains (c # cs) w"
    then consider "prefix w (c # cs)" | "contains cs w"
      by auto
    then show "\<exists>pre post. c # cs = pre @ w @ post"
    proof cases
      case 1
      then obtain post where "c # cs = w @ post"
        by (auto simp: prefix_def)
      then have "c # cs = [] @ w @ post"
        by simp
      then show ?thesis
        by blast
    next
      case 2
      then obtain pre post where "cs = pre @ w @ post"
        using Cons.IH by blast
      then have "c # cs = (c # pre) @ w @ post"
        by simp
      then show ?thesis
        by blast
    qed
  next
    assume "\<exists>pre post. c # cs = pre @ w @ post"
    then obtain pre post where eq: "c # cs = pre @ w @ post"
      by blast
    show "contains (c # cs) w"
    proof (cases pre)
      case Nil
      then have "prefix w (c # cs)"
        using eq by (simp add: prefix_def)
      then show ?thesis
        by simp
    next
      case (Cons p ps)
      then have "cs = ps @ w @ post"
        using eq by simp
      then have "contains cs w"
        using Cons.IH by blast
      then show ?thesis
        by simp
    qed
  qed
qed

lemma needs_report_analyze:
  "a_needs_report (analyze_query m q)
   = (''report_generation'' \<in> set (a_intents (analyze_query m q))
      \<or> list_ex (contains (lower q)) report_words)"
  by (simp add: analyze_query_def Let_def)

lemma synthesized_flag:
  assumes "synthesized self uuids now st0 = Inr st4"
  shows "s_generate_report st4
         = (a_needs_report (analyze_query (master_agent self) (s_user_query st0))
            \<or> s_generate_report st0)"
proof -
  obtain st2 where pl: "planned self uuids st0 = Inr st2"
    and g2: "s_generate_report st2
             = (a_needs_report (analyze_query (master_agent self) (s_user_query st0))
                \<or> s_generate_report st0)"
    using planned_state [of self uuids st0] by blast
  obtain st3 where d: "dispatched self uuids st0 = Inr st3"
    and g3: "s_generate_report st3 = s_generate_report st2"
    using dispatched_state [OF pl] by blast
  have "synthesize_node self now st3 = Inr st4"
    using assms d by (simp add: synthesized_def bind_err_def)
  then have "s_generate_report st4 = s_generate_report st3"
    using synthesize_node_keeps by blast
  then show ?thesis
    using g2 g3 by simp
qed

text \<open>
  Claim C9. For every query whose lowercased text contains one of the substrings
  \<open>report\<close>, \<open>pdf\<close>, \<open>document\<close>, \<open>summary\<close> (anywhere, also inside a longer word), the
  analysis sets the report-need flag; so, even when the caller passed
  \<open>generate_report = False\<close> and whatever intent patterns matched, the analysis node sets the
  state's flag, the conditional edge after synthesis chooses \<open>generate_report\<close>, and the
  compiled graph runs the report node before the formatting node.
\<close>

theorem report_keyword_takes_report_branch:
  assumes "w \<in> set report_words" and "lower q = pre @ w @ post"
  shows "a_needs_report (analyze_query (master_agent self) q)
       \<and> (\<exists>st1. analyze_query_node self (create_initial_state q fmt ic it False) = Inr st1
                 \<and> s_generate_report st1)
       \<and> (\<forall>st4. synthesized self uuids now (create_initial_state q fmt ic it False) = Inr st4
                 \<longrightarrow> should_generate_report st4 = ''generate_report'')
       \<and> compiled_graph_invoke self uuids now (create_initial_state q fmt ic it False)
           = bind_err (bind_err (synthesized self uuids now (create_initial_state q fmt ic it False))
                                (generate_report_node self uuids))
                      format_output_node"
proof -
  let ?st0 = "create_initial_state q fmt ic it False"
  have q0: "s_user_query ?st0 = q"
    by (simp add: create_initial_state_def)
  have "contains (lower q) w"
    using assms(2) contains_iff by blast
  then have "list_ex (contains (lower q)) report_words"
    using assms(1) by (auto simp: list_ex_iff)
  then have nr: "a_needs_report (analyze_query (master_agent self) q)"
    by (simp add: needs_report_analyze)
  have node: "\<exists>st1. analyze_query_node self ?st0 = Inr st1 \<and> s_generate_report st1"
    using analyze_query_node_returns [of self ?st0] nr q0 by auto
  have branch: "should_generate_report st4 = ''generate_report''"
    if "synthesized self uuids now ?st0 = Inr st4" for st4
    using synthesized_flag [OF that] nr q0 by (simp add: should_generate_report_def)
  have "compiled_graph_invoke self uuids now ?st0
        = bind_err (bind_err (synthesized self uuids now ?st0) (generate_report_node self uuids))
                   format_output_node"
  proof (cases "synthesized self uuids now ?st0")
    case (Inl e)
    then show ?thesis
      by (simp add: compiled_graph_invoke_def bind_err_def)
  next
    case (Inr st4)
    then show ?thesis
      using branch [OF Inr] by (simp add: compiled_graph_invoke_def bind_err_def)
  qed
  then show ?thesis
    using nr node branch by blast
qed

theorem report_keyword_takes_report_branch_witness:
  "lower ''documentation'' = [] @ ''document'' @ ''ation''
   \<and> matched_intents (lower ''documentation'') = []
   \<and> a_needs_report (analyze_query plain_master ''documentation'')
   \<and> compiled_graph_invoke steady_orchestrator sample_uuids sample_now
        (create_initial_state ''documentation'' TEXT True True False)
       = bind_err (bind_err (synthesized steady_orchestrator sample_uuids sample_now
                               (create_initial_state ''documentation'' TEXT True True False))
                            (generate_report_node steady_orchestrator sample_uuids))
                  format_output_node"
proof -
  have w: "''document'' \<in> set report_words"
    by (simp add: report_words_def)
  have l: "lower ''documentation'' = [] @ ''document'' @ ''ation''"
    by code_simp
  have m: "matched_intents (lower ''documentation'') = []"
    by code_simp
  have p: "master_agent steady_orchestrator = plain_master"
    by (simp add: steady_orchestrator_def)
  show ?thesis
    using l m p
      report_keyword_takes_report_branch [OF w l, of steady_orchestrator TEXT True True
        sample_uuids sample_now]
    by simp
qed

text \<open>The word \<open>summarize\<close> holds none of the four substrings.\<close>

lemma summarize_is_no_report_word:
  "\<not> a_needs_report (analyze_query plain_master ''summarize'')"
  by code_simp


lemma report_intent_roundtrip:
  "List.map_filter (\<lambda>intent. map_of intent_mapping (strip intent))
     (split '', '' (join '', '' [''report_generation''])) = []"
  by code_simp

lemma worker_tasks_priorities:
  "map priority (worker_tasks uuids a) = map get_task_priority (a_required_agents a)"
proof -
  have "map priority (worker_tasks uuids a)
        = map (get_task_priority \<circ> snd) (enumerate 0 (a_required_agents a))"
    by (simp add: worker_tasks_def worker_task_fields case_prod_unfold comp_def)
  then show ?thesis
    by (simp add: map_map [symmetric] del: map_map)
qed

lemma execute_tasks_registered:
  assumes "\<forall>t \<in> set ts. not_report t \<and> reg (t_agent_type t) \<noteq> None"
  shows "length (execute_tasks reg ts) = length ts"
  using assms by (induction ts) (auto simp: not_report_def)

lemma analyze_query_node_parameters:
  assumes "analyze_query_node self st = Inr st1"
  shows "s_parameters st1 = a_parameters (analyze_query (master_agent self) (s_user_query st))"
  using assms by (auto simp: analyze_query_node_def Let_def)

lemma plan_tasks_node_tasks:
  assumes "s_query_intent st = Some qi" and "determine_required_agents st = Inr agents"
  shows "\<exists>st2. plan_tasks_node self uuids st = Inr st2
           \<and> s_tasks st2 = create_task_plan uuids
                \<lparr> a_original_query = s_user_query st, a_drug_name = s_drug_name st,
                  a_therapy_area = s_therapy_area st, a_intents = split '', '' qi,
                  a_required_agents = agents, a_needs_report = s_generate_report st,
                  a_parameters = s_parameters st \<rparr>"
  using assms
  by (simp add: plan_tasks_node_def bind_err_def Let_def del: show_nat.simps)

lemma worker_tasks_three:
  assumes "a_required_agents a = [x, y, z]"
  shows "worker_tasks uuids a
         = [worker_task a (uuids 0) x, worker_task a (uuids 1) y, worker_task a (uuids 2) z]"
  using assms by (simp add: worker_tasks_def numeral_2_eq_2)

text \<open>
  Claim C10. When the only intent a query matches is \<open>report_generation\<close> (as for the
  query \<open>generate report\<close>), the workflow's agent-determination step finds no analysis
  worker, its table having no entry for \<open>report_generation\<close>, and falls back to the three
  default workers. The plan is then four tasks: an IQVIA, a clinical-trials and a patent
  task, each carrying the query built for its worker from the user's query, followed by
  the report task. Dispatch hands each of the three analysis tasks to the worker
  registered for its type: when the three are registered, the results gathered by the
  execution step are, in this order, what the IQVIA worker returns on the first task, what
  the clinical-trials worker returns on the second and what the patent worker returns on
  the third, a worker that raises being recorded as a failed result of its task.
\<close>

theorem report_only_query_plans_default_workers:
  assumes "matched_intents (lower q) = [''report_generation'']"
  shows "a_intents (analyze_query (master_agent self) q) = [''report_generation'']
       \<and> List.map_filter (\<lambda>intent. map_of intent_mapping (strip intent))
            (split '', '' (join '', '' (a_intents (analyze_query (master_agent self) q)))) = []
       \<and> (\<exists>st. planned self uuids (create_initial_state q fmt ic it gr) = Inr st
             \<and> map t_agent_type (s_tasks st)
                 = [IQVIA, CLINICAL_TRIALS, PATENT, REPORT_GENERATOR]
             \<and> map t_agent_type (filter not_report (s_tasks st))
                 = [IQVIA, CLINICAL_TRIALS, PATENT]
             \<and> map t_query (filter not_report (s_tasks st))
                 = map (\<lambda>ty. create_agent_query ty q
                                (a_parameters (analyze_query (master_agent self) q)))
                     [IQVIA, CLINICAL_TRIALS, PATENT]
             \<and> ((\<forall>ty \<in> {IQVIA, CLINICAL_TRIALS, PATENT}. worker_agents self ty \<noteq> None)
                  \<longrightarrow> length (execute_tasks (worker_agents self) (s_tasks st)) = 3)
             \<and> (\<forall>a1 a2 a3.
                   worker_agents self IQVIA = Some a1
                   \<and> worker_agents self CLINICAL_TRIALS = Some a2
                   \<and> worker_agents self PATENT = Some a3
                   \<longrightarrow> (\<exists>t1 t2 t3 t4 st3.
                          s_tasks st = [t1, t2, t3, t4]
                        \<and> dispatched self uuids (create_initial_state q fmt ic it gr) = Inr st3
                        \<and> s_agent_responses st3
                            = [case a1 t1 of Inr r \<Rightarrow> r | Inl e \<Rightarrow> failed_response t1 e,
                               case a2 t2 of Inr r \<Rightarrow> r | Inl e \<Rightarrow> failed_response t2 e,
                               case a3 t3 of Inr r \<Rightarrow> r | Inl e \<Rightarrow> failed_response t3 e])))"
proof -
  let ?st0 = "create_initial_state q fmt ic it gr"
  let ?m = "master_agent self"
  have q0: "s_user_query ?st0 = q"
    by (simp add: create_initial_state_def)
  have ints: "a_intents (analyze_query ?m q) = [''report_generation'']"
    using assms by (simp add: a_intents_analyze)
  have none: "List.map_filter (\<lambda>intent. map_of intent_mapping (strip intent))
            (split '', '' (join '', '' (a_intents (analyze_query ?m q)))) = []"
    using report_intent_roundtrip by (simp only: ints)
  have nr: "a_needs_report (analyze_query ?m q)"
    using ints by (simp add: needs_report_analyze)
  obtain st1 where st1: "analyze_query_node self ?st0 = Inr st1"
    and qi: "s_query_intent st1 = Some (join '', '' (a_intents (analyze_query ?m q)))"
    and flag: "s_generate_report st1"
    and uq: "s_user_query st1 = q"
    using analyze_query_node_returns [of self ?st0] nr q0 by auto
  have par: "s_parameters st1 = a_parameters (analyze_query ?m q)"
    using analyze_query_node_parameters [OF st1] q0 by simp
  have ag: "determine_required_agents st1 = Inr [IQVIA, CLINICAL_TRIALS, PATENT]"
    using qi none by (simp add: determine_required_agents_def Let_def)
  let ?a = "\<lparr> a_original_query = s_user_query st1, a_drug_name = s_drug_name st1,
              a_therapy_area = s_therapy_area st1,
              a_intents = split '', '' (join '', '' (a_intents (analyze_query ?m q))),
              a_required_agents = [IQVIA, CLINICAL_TRIALS, PATENT],
              a_needs_report = s_generate_report st1, a_parameters = s_parameters st1 \<rparr>"
  obtain st2 where pl: "plan_tasks_node self uuids st1 = Inr st2"
    and ts: "s_tasks st2 = create_task_plan uuids ?a"
    using plan_tasks_node_tasks [OF qi ag, of self uuids] by blast
  have a: "a_required_agents ?a = [IQVIA, CLINICAL_TRIALS, PATENT]"
    and anr: "a_needs_report ?a" and aq: "a_original_query ?a = q"
    and ap: "a_parameters ?a = a_parameters (analyze_query ?m q)"
    using flag uq par by simp_all
  let ?t1 = "worker_task ?a (uuids 0) IQVIA"
  let ?t2 = "worker_task ?a (uuids 1) CLINICAL_TRIALS"
  let ?t3 = "worker_task ?a (uuids 2) PATENT"
  let ?t4 = "report_task ?a (uuids (length (a_required_agents ?a)))"
  have wt: "worker_tasks uuids ?a = [?t1, ?t2, ?t3]"
    using a by (rule worker_tasks_three)
  have "sorted (map priority (worker_tasks uuids ?a))"
    by (simp only: worker_tasks_priorities a) simp
  then have srt: "sort_key priority (worker_tasks uuids ?a) = worker_tasks uuids ?a"
    by (rule sort_key_id_if_sorted)
  have plan: "s_tasks st2 = [?t1, ?t2, ?t3, ?t4]"
    using ts srt wt create_task_plan_report [OF anr, of uuids] by (simp only: append.simps)
  have ty: "t_agent_type ?t1 = IQVIA" "t_agent_type ?t2 = CLINICAL_TRIALS"
    "t_agent_type ?t3 = PATENT" "t_agent_type ?t4 = REPORT_GENERATOR"
    by (simp_all only: worker_task_fields report_task_fields)
  have tq: "t_query ?t1 = create_agent_query IQVIA q (a_parameters (analyze_query ?m q))"
    "t_query ?t2 = create_agent_query CLINICAL_TRIALS q (a_parameters (analyze_query ?m q))"
    "t_query ?t3 = create_agent_query PATENT q (a_parameters (analyze_query ?m q))"
    using uq par by (simp_all add: worker_task_def)
  have types: "map t_agent_type (s_tasks st2)
               = [IQVIA, CLINICAL_TRIALS, PATENT, REPORT_GENERATOR]"
    by (simp only: plan list.map ty)
  have nonrep: "filter not_report (s_tasks st2) = [?t1, ?t2, ?t3]"
    by (simp only: plan filter.simps not_report_def ty) simp
  have types3: "map t_agent_type (filter not_report (s_tasks st2))
                = [IQVIA, CLINICAL_TRIALS, PATENT]"
    by (simp only: nonrep list.map ty)
  have queries: "map t_query (filter not_report (s_tasks st2))
                 = map (\<lambda>ty. create_agent_query ty q (a_parameters (analyze_query ?m q)))
                     [IQVIA, CLINICAL_TRIALS, PATENT]"
    by (simp only: nonrep list.map tq)
  have pln: "planned self uuids ?st0 = Inr st2"
    using st1 pl by (simp add: planned_def bind_err_def)
  have ex: "execute_tasks (worker_agents self) (s_tasks st2)
            = [case a1 ?t1 of Inr r \<Rightarrow> r | Inl e \<Rightarrow> failed_response ?t1 e,
               case a2 ?t2 of Inr r \<Rightarrow> r | Inl e \<Rightarrow> failed_response ?t2 e,
               case a3 ?t3 of Inr r \<Rightarrow> r | Inl e \<Rightarrow> failed_response ?t3 e]"
    if "worker_agents self IQVIA = Some a1" "worker_agents self CLINICAL_TRIALS = Some a2"
      "worker_agents self PATENT = Some a3" for a1 a2 a3
    using that by (simp only: plan execute_tasks.simps ty) simp
  have cnt: "length (execute_tasks (worker_agents self) (s_tasks st2)) = 3"
    if reg: "\<forall>ty \<in> {IQVIA, CLINICAL_TRIALS, PATENT}. worker_agents self ty \<noteq> None"
  proof -
    obtain a1 a2 a3 where "worker_agents self IQVIA = Some a1"
      "worker_agents self CLINICAL_TRIALS = Some a2" "worker_agents self PATENT = Some a3"
      using reg by auto
    then show ?thesis
      using ex [of a1 a2 a3] by simp
  qed
  have disp: "\<exists>t1 t2 t3 t4 st3.
                s_tasks st2 = [t1, t2, t3, t4]
              \<and> dispatched self uuids ?st0 = Inr st3
              \<and> s_agent_responses st3
                  = [case a1 t1 of Inr r \<Rightarrow> r | Inl e \<Rightarrow> failed_response t1 e,
                     case a2 t2 of Inr r \<Rightarrow> r | Inl e \<Rightarrow> failed_response t2 e,
                     case a3 t3 of Inr r \<Rightarrow> r | Inl e \<Rightarrow> failed_response t3 e]"
    if reg: "worker_agents self IQVIA = Some a1 \<and> worker_agents self CLINICAL_TRIALS = Some a2
             \<and> worker_agents self PATENT = Some a3" for a1 a2 a3
  proof -
    obtain st3 where d: "dispatched self uuids ?st0 = Inr st3"
      and r3: "s_agent_responses st3
               = s_agent_responses st2 @ execute_tasks (worker_agents self) (s_tasks st2)"
      using dispatched_state [OF pln] by blast
    have "s_agent_responses st2 = []"
      using planned_initial_responses [OF pln] by simp
    then have "s_agent_responses st3
               = [case a1 ?t1 of Inr r \<Rightarrow> r | Inl e \<Rightarrow> failed_response ?t1 e,
                  case a2 ?t2 of Inr r \<Rightarrow> r | Inl e \<Rightarrow> failed_response ?t2 e,
                  case a3 ?t3 of Inr r \<Rightarrow> r | Inl e \<Rightarrow> failed_response ?t3 e]"
      using r3 ex reg by simp
    then show ?thesis
      using plan d by blast
  qed
  have cnt': "(\<forall>ty \<in> {IQVIA, CLINICAL_TRIALS, PATENT}. worker_agents self ty \<noteq> None)
              \<longrightarrow> length (execute_tasks (worker_agents self) (s_tasks st2)) = 3"
    using cnt by (rule impI)
  have disp': "\<forall>a1 a2 a3.
                 worker_agents self IQVIA = Some a1
                 \<and> worker_agents self CLINICAL_TRIALS = Some a2
                 \<and> worker_agents self PATENT = Some a3
                 \<longrightarrow> (\<exists>t1 t2 t3 t4 st3.
                        s_tasks st2 = [t1, t2, t3, t4]
                      \<and> dispatched self uuids ?st0 = Inr st3
                      \<and> s_agent_responses st3
                          = [case a1 t1 of Inr r \<Rightarrow> r | Inl e \<Rightarrow> failed_response t1 e,
                             case a2 t2 of Inr r \<Rightarrow> r | Inl e \<Rightarrow> failed_response t2 e,
                             case a3 t3 of Inr r \<Rightarrow> r | Inl e \<Rightarrow> failed_response t3 e])"
    using disp by (intro allI impI)
  show ?thesis
    apply (intro conjI)
      apply (rule ints)
     apply (rule none)
    apply (rule exI [of _ st2])
    apply (intro conjI)
         apply (rule pln)
        apply (rule types)
       apply (rule types3)
      apply (rule queries)
     apply (rule cnt')
    apply (rule disp')
    done
qed


theorem report_only_query_plans_default_workers_witness:
  "matched_intents (lower ''generate report'') = [''report_generation'']
   \<and> (\<exists>st. planned steady_orchestrator sample_uuids
               (create_initial_state ''generate report'' TEXT True True False) = Inr st
          \<and> map t_agent_type (s_tasks st)
              = [IQVIA, CLINICAL_TRIALS, PATENT, REPORT_GENERATOR])
   \<and> (\<exists>st3. dispatched steady_orchestrator sample_uuids
               (create_initial_state ''generate report'' TEXT True True False) = Inr st3
          \<and> map agent_type (s_agent_responses st3) = [IQVIA, CLINICAL_TRIALS, PATENT]
          \<and> map status (s_agent_responses st3) = [COMPLETED, COMPLETED, COMPLETED])"
proof -
  let ?st0 = "create_initial_state ''generate report'' TEXT True True False"
  let ?a1 = "BaseAgent_execute (steady_worker IQVIA)"
  let ?a2 = "BaseAgent_execute (steady_worker CLINICAL_TRIALS)"
  let ?a3 = "BaseAgent_execute (steady_worker PATENT)"
  have m: "matched_intents (lower ''generate report'') = [''report_generation'']"
    by code_simp
  have reg: "worker_agents steady_orchestrator IQVIA = Some ?a1
             \<and> worker_agents steady_orchestrator CLINICAL_TRIALS = Some ?a2
             \<and> worker_agents steady_orchestrator PATENT = Some ?a3"
    by (simp add: steady_orchestrator_def registry_of_def)
  note th = report_only_query_plans_default_workers [OF m, of steady_orchestrator sample_uuids
      TEXT True True False]
  obtain st where pl: "planned steady_orchestrator sample_uuids ?st0 = Inr st"
    and ty: "map t_agent_type (s_tasks st) = [IQVIA, CLINICAL_TRIALS, PATENT, REPORT_GENERATOR]"
    and all: "\<forall>a1 a2 a3.
                worker_agents steady_orchestrator IQVIA = Some a1
                \<and> worker_agents steady_orchestrator CLINICAL_TRIALS = Some a2
                \<and> worker_agents steady_orchestrator PATENT = Some a3
                \<longrightarrow> (\<exists>t1 t2 t3 t4 st3.
                       s_tasks st = [t1, t2, t3, t4]
                     \<and> dispatched steady_orchestrator sample_uuids ?st0 = Inr st3
                     \<and> s_agent_responses st3
                         = [case a1 t1 of Inr r \<Rightarrow> r | Inl e \<Rightarrow> failed_response t1 e,
                            case a2 t2 of Inr r \<Rightarrow> r | Inl e \<Rightarrow> failed_response t2 e,
                            case a3 t3 of Inr r \<Rightarrow> r | Inl e \<Rightarrow> failed_response t3 e])"
    using conjunct2 [OF conjunct2 [OF th]] by (elim exE conjE)
  have ex: "\<exists>t1 t2 t3 t4 st3.
              s_tasks st = [t1, t2, t3, t4]
            \<and> dispatched steady_orchestrator sample_uuids ?st0 = Inr st3
            \<and> s_agent_responses st3
                = [case ?a1 t1 of Inr r \<Rightarrow> r | Inl e \<Rightarrow> failed_response t1 e,
                   case ?a2 t2 of Inr r \<Rightarrow> r | Inl e \<Rightarrow> failed_response t2 e,
                   case ?a3 t3 of Inr r \<Rightarrow> r | Inl e \<Rightarrow> failed_response t3 e]"
    by (rule all [rule_format, OF reg])
  obtain t1 t2 t3 t4 st3 where ts: "s_tasks st = [t1, t2, t3, t4]"
    and d: "dispatched steady_orchestrator sample_uuids ?st0 = Inr st3"
    and rs: "s_agent_responses st3
             = [case ?a1 t1 of Inr r \<Rightarrow> r | Inl e \<Rightarrow> failed_response t1 e,
                case ?a2 t2 of Inr r \<Rightarrow> r | Inl e \<Rightarrow> failed_response t2 e,
                case ?a3 t3 of Inr r \<Rightarrow> r | Inl e \<Rightarrow> failed_response t3 e]"
    using ex by (elim exE conjE)
  have at: "map agent_type (s_agent_responses st3) = [IQVIA, CLINICAL_TRIALS, PATENT]"
    and stt: "map status (s_agent_responses st3) = [COMPLETED, COMPLETED, COMPLETED]"
    by (simp_all add: rs BaseAgent_execute_def steady_worker_def)
  have one: "\<exists>st. planned steady_orchestrator sample_uuids ?st0 = Inr st
          \<and> map t_agent_type (s_tasks st) = [IQVIA, CLINICAL_TRIALS, PATENT, REPORT_GENERATOR]"
    apply (rule exI [of _ st])
    apply (intro conjI)
     apply (rule pl)
    apply (rule ty)
    done
  have two: "\<exists>st3. dispatched steady_orchestrator sample_uuids ?st0 = Inr st3
          \<and> map agent_type (s_agent_responses st3) = [IQVIA, CLINICAL_TRIALS, PATENT]
          \<and> map status (s_agent_responses st3) = [COMPLETED, COMPLETED, COMPLETED]"
    apply (rule exI [of _ st3])
    apply (intro conjI)
      apply (rule d)
     apply (rule at)
    apply (rule stt)
    done
  show ?thesis
    apply (intro conjI)
      apply (rule m)
     apply (rule one)
    apply (rule two)
    done
qed

section \<open>Properties of synthesis\<close>

lemma executive_summary_fallback:
  assumes "llm_unavailable m"
  shows "create_executive_summary m q ss = fallback_summary ss"
proof (cases "llm m")
  case None
  then show ?thesis
    by (simp add: create_executive_summary_def)
next
  case (Some invoke)
  then obtain e where "invoke (summary_prompt q ss) = Inl e"
    using assms by (auto simp: llm_unavailable_def)
  then show ?thesis
    using Some by (simp add: create_executive_summary_def)
qed

text \<open>
  Claim C8, as amended. With the text generator unavailable (absent, or raising), two
  calls of synthesis on the same query and the same results, made at two clock readings,
  return the same sections, tables, charts and references in every output mode and the
  same response document in every mode but JSON; in JSON mode the two response objects
  are equal in every field except \<open>generated_at\<close>, which holds the clock reading of the
  call. The executive summary is the fallback summary, a total function of the completed
  results: the generator's exception is absorbed and nothing is raised. (As stated, with
  identical content in every output mode, the claim fails in JSON mode: see the
  counterexample below.)
\<close>

theorem synthesis_deterministic_up_to_timestamp:
  assumes "llm_unavailable m"
  shows "(fmt \<noteq> JSON \<longrightarrow> synthesize_responses m t1 q rs fmt = synthesize_responses m t2 q rs fmt)
       \<and> syn_sections (synthesize_responses m t1 q rs fmt)
           = syn_sections (synthesize_responses m t2 q rs fmt)
       \<and> syn_tables (synthesize_responses m t1 q rs fmt)
           = syn_tables (synthesize_responses m t2 q rs fmt)
       \<and> syn_charts (synthesize_responses m t1 q rs fmt)
           = syn_charts (synthesize_responses m t2 q rs fmt)
       \<and> syn_references (synthesize_responses m t1 q rs fmt)
           = syn_references (synthesize_responses m t2 q rs fmt)
       \<and> (fmt = JSON \<longrightarrow>
            (\<exists>j. syn_response (synthesize_responses m t1 q rs fmt)
                    = JsonBody (j\<lparr> j_generated_at := t1 \<rparr>)
                \<and> syn_response (synthesize_responses m t2 q rs fmt)
                    = JsonBody (j\<lparr> j_generated_at := t2 \<rparr>)
                \<and> j_executive_summary j
                    = fallback_summary (map (\<lambda>r. (AgentType_value (agent_type r), summary r))
                                          (completed rs))))
       \<and> create_executive_summary m q (map (\<lambda>r. (AgentType_value (agent_type r), summary r))
                                           (completed rs))
           = fallback_summary (map (\<lambda>r. (AgentType_value (agent_type r), summary r))
                                 (completed rs))"
proof -
  let ?ss = "map (\<lambda>r. (AgentType_value (agent_type r), summary r)) (completed rs)"
  have fb: "create_executive_summary m q ?ss = fallback_summary ?ss"
    using assms by (rule executive_summary_fallback)
  have same: "synthesize_responses m t1 q rs fmt = synthesize_responses m t2 q rs fmt"
    if "fmt \<noteq> JSON"
    using that by (simp add: synthesize_responses_def Let_def)
  have parts: "syn_sections (synthesize_responses m t1 q rs fmt)
           = syn_sections (synthesize_responses m t2 q rs fmt)"
       "syn_tables (synthesize_responses m t1 q rs fmt)
           = syn_tables (synthesize_responses m t2 q rs fmt)"
       "syn_charts (synthesize_responses m t1 q rs fmt)
           = syn_charts (synthesize_responses m t2 q rs fmt)"
       "syn_references (synthesize_responses m t1 q rs fmt)
           = syn_references (synthesize_responses m t2 q rs fmt)"
    by (simp_all add: synthesize_responses_def Let_def)
  have json: "\<exists>j. syn_response (synthesize_responses m t1 q rs fmt)
                    = JsonBody (j\<lparr> j_generated_at := t1 \<rparr>)
                \<and> syn_response (synthesize_responses m t2 q rs fmt)
                    = JsonBody (j\<lparr> j_generated_at := t2 \<rparr>)
                \<and> j_executive_summary j = fallback_summary ?ss"
    if "fmt = JSON"
  proof -
    let ?j = "\<lparr> j_query = q, j_executive_summary = fallback_summary ?ss,
                j_sections = map (\<lambda>(agent, content).
                      \<lparr> sec_title = agent_title agent, sec_content = content \<rparr>) ?ss,
                j_tables = concat (map tables (completed rs)),
                j_charts = concat (map charts (completed rs)),
                j_references = list_of_set (ref_order m) (concat (map references (completed rs))),
                j_generated_at = t1 \<rparr>"
    have "syn_response (synthesize_responses m t1 q rs fmt) = JsonBody (?j\<lparr> j_generated_at := t1 \<rparr>)"
      using that fb by (simp add: synthesize_responses_def Let_def)
    moreover have "syn_response (synthesize_responses m t2 q rs fmt)
                   = JsonBody (?j\<lparr> j_generated_at := t2 \<rparr>)"
      using that fb by (simp add: synthesize_responses_def Let_def)
    moreover have "j_executive_summary ?j = fallback_summary ?ss"
      by simp
    ultimately show ?thesis
      by blast
  qed
  show ?thesis
    using fb same parts json by blast
qed

theorem synthesis_deterministic_up_to_timestamp_witness:
  "llm_unavailable offline_master
   \<and> synthesize_responses offline_master sample_now ''exports'' sample_results TEXT
       = synthesize_responses offline_master sample_later ''exports'' sample_results TEXT
   \<and> map sec_title (syn_sections
        (synthesize_responses offline_master sample_now ''exports'' sample_results TEXT))
       = [''Exim Trends'', ''Iqvia Insights'']
   \<and> syn_references
        (synthesize_responses offline_master sample_now ''exports'' sample_results TEXT)
       = [''UN Comtrade Database'']"
proof -
  have u: "llm_unavailable offline_master"
    by (simp add: llm_unavailable_def offline_master_def)
  have t: "map sec_title (syn_sections
        (synthesize_responses offline_master sample_now ''exports'' sample_results TEXT))
       = [''Exim Trends'', ''Iqvia Insights'']"
    by code_simp
  have r: "syn_references
        (synthesize_responses offline_master sample_now ''exports'' sample_results TEXT)
       = [''UN Comtrade Database'']"
    by code_simp
  show ?thesis
    using u t r
      synthesis_deterministic_up_to_timestamp [OF u, of TEXT sample_now "''exports''"
        sample_results sample_later]
    by simp
qed

text \<open>
  Counterexample to claim C8 as stated: in JSON mode the same query and results,
  synthesized at two clock readings, give two different responses.
\<close>

theorem json_synthesis_differs_by_timestamp:
  "synthesize_responses plain_master sample_now ''exports'' sample_results JSON
   \<noteq> synthesize_responses plain_master sample_later ''exports'' sample_results JSON"
proof
  assume "synthesize_responses plain_master sample_now ''exports'' sample_results JSON
          = synthesize_responses plain_master sample_later ''exports'' sample_results JSON"
  then have "syn_response (synthesize_responses plain_master sample_now ''exports'' sample_results JSON)
          = syn_response (synthesize_responses plain_master sample_later ''exports'' sample_results JSON)"
    by simp
  then have "sample_now = sample_later"
    by (simp add: synthesize_responses_def Let_def)
  then show False
    by (simp add: sample_now_def sample_later_def)
qed


section \<open>Properties of entity extraction\<close>

lemma of_char_bounds: "0 \<le> (of_char c :: int) \<and> (of_char c :: int) < 256"
proof -
  have "(of_char c :: int) mod 256 = of_char c"
    by simp
  moreover have "0 \<le> (of_char c :: int) mod 256" and "(of_char c :: int) mod 256 < 256"
    by (simp_all del: of_char_mod_256)
  ultimately show ?thesis
    by simp
qed

lemma of_char_lower_char:
  "(of_char (lower_char c) :: int) = (if upper_cp (of_char c) then of_char c + 32 else of_char c)"
proof (cases "upper_cp (of_char c)")
  case True
  then have "(of_char c :: int) + 32 < 256" and "0 \<le> (of_char c :: int) + 32"
    using of_char_bounds [of c] by (auto simp: upper_cp_def between_def)
  then have "((of_char c :: int) + 32) mod 256 = of_char c + 32"
    by simp
  then show ?thesis
    using True by (simp add: lower_char_def is_upper_def)
next
  case False
  then show ?thesis
    by (simp add: lower_char_def is_upper_def)
qed

lemma is_word_lower_char: "is_word (lower_char c) = is_word c"
  unfolding is_word_def of_char_lower_char
  by (auto simp: word_cp_def upper_cp_def between_def)

lemma lit_match_eq:
  "lit_match ic w (prev, s) =
     (if length w \<le> length s \<and> list_all2 (chr_eq ic) w (take (length w) s)
      then [(if w = [] then prev else Some (s ! (length w - 1)), drop (length w) s)]
      else [])"
proof (induction w arbitrary: prev s)
  case Nil
  then show ?case by simp
next
  case (Cons p ps)
  show ?case
  proof (cases s)
    case Nil
    then show ?thesis by simp
  next
    case (Cons c cs)
    then show ?thesis
      using Cons.IH [of "Some c" cs] by (cases ps) auto
  qed
qed

lemma list_all2_chr_eq_lower:
  "length w = length t \<Longrightarrow> list_all2 (chr_eq True) w t = (lower t = lower w)"
  by (induction w t rule: list_induct2) (auto simp: chr_eq_def lower_def)


lemma lower_nth_word:
  assumes "lower (take (length name) s) = lower name" and "k < length name"
    and "length name \<le> length s"
  shows "is_word (s ! k) = is_word (name ! k)"
proof -
  have "lower (take (length name) s) ! k = lower name ! k"
    using assms(1) by simp
  then have "lower_char (s ! k) = lower_char (name ! k)"
    using assms(2,3) by (simp add: lower_def)
  then show ?thesis
    by (metis is_word_lower_char)
qed

lemma ends_word_pattern:
  assumes "wordlike name"
  shows "ends True (word_pattern name) (prev, s)
         = (if word_here name (prev, s)
            then [(Some (s ! (length name - 1)), drop (length name) s)] else [])"
proof (cases "length name \<le> length s \<and> lower (take (length name) s) = lower name")
  case False
  then have "lit_match True name (prev, s) = []"
    by (auto simp: lit_match_eq list_all2_chr_eq_lower)
  then show ?thesis
    using False by (auto simp: word_pattern_def word_here_def)
next
  case True
  let ?n = "length name"
  have n: "0 < ?n" and hd: "is_word (name ! 0)" and lst: "is_word (name ! (?n - 1))"
    using assms by (auto simp: wordlike_def hd_conv_nth last_conv_nth)
  have lit: "lit_match True name (prev, s) = [(Some (s ! (?n - 1)), drop ?n s)]"
    using True n by (simp add: lit_match_eq list_all2_chr_eq_lower)
  have w0: "is_word (s ! 0)"
    using lower_nth_word [of name s 0] True n hd by simp
  have wl: "is_word (s ! (?n - 1))"
    using lower_nth_word [of name s "?n - 1"] True n lst by simp
  obtain c cs where s: "s = c # cs"
    using True n by (cases s) auto
  have b0: "at_boundary (prev, s) = (opt_word prev = False)"
    using w0 s by auto
  have b1: "at_boundary (Some (s ! (?n - 1)), drop ?n s)
            = (case drop ?n s of [] \<Rightarrow> True | c # cs \<Rightarrow> is_word c = False)"
    using wl by (cases "drop ?n s") (auto simp: opt_word_def)
  show ?thesis
    using True lit b0 b1 by (simp add: word_pattern_def word_here_def)
qed

lemma find_map_shift: "find P (map f xs) = map_option f (find (P \<circ> f) xs)"
  by (induction xs) auto

lemma cursor_from_Suc:
  "cursor_from prev (c # cs) (Suc k) = cursor_from (Some c) cs k"
  by (cases k) (simp_all add: cursor_from_def)


lemma search_from_word:
  assumes "wordlike name"
  shows "search_from True (word_pattern name) prev s
         = map_option (\<lambda>k. take (length name) (drop k s))
             (find (\<lambda>k. word_here name (cursor_from prev s k)) [0..<Suc (length s)])"
proof (induction s arbitrary: prev)
  case Nil
  have "\<not> word_here name (prev, [])"
    using assms by (simp add: word_here_def wordlike_def)
  then show ?case
    using ends_word_pattern [OF assms, of prev "[]"] by (simp add: cursor_from_def)
next
  case (Cons c cs)
  let ?P = "\<lambda>k. word_here name (cursor_from prev (c # cs) k)"
  have upt: "[0..<Suc (length (c # cs))] = 0 # map Suc [0..<Suc (length cs)]"
    by (simp add: upt_conv_Cons map_Suc_upt del: upt_Suc)
  have shift: "(?P \<circ> Suc) = (\<lambda>k. word_here name (cursor_from (Some c) cs k))"
    by (simp add: comp_def cursor_from_Suc)
  have p0: "?P 0 = word_here name (prev, c # cs)"
    by (simp add: cursor_from_def)
  show ?case
  proof (cases "word_here name (prev, c # cs)")
    case True
    then have "length name \<le> length (c # cs)"
      by (simp add: word_here_def)
    then have "length (c # cs) - length (drop (length name) (c # cs)) = length name"
      by simp
    then have "search_from True (word_pattern name) prev (c # cs) = Some (take (length name) (c # cs))"
      using True ends_word_pattern [OF assms, of prev "c # cs"] by (simp del: length_drop)
    moreover have "find ?P [0..<Suc (length (c # cs))] = Some 0"
      using True p0 by (simp only: upt) simp
    ultimately show ?thesis
      by simp
  next
    case False
    then have "search_from True (word_pattern name) prev (c # cs)
               = search_from True (word_pattern name) (Some c) cs"
      using ends_word_pattern [OF assms, of prev "c # cs"] by simp
    moreover have "find ?P [0..<Suc (length (c # cs))]
                   = map_option Suc (find (\<lambda>k. word_here name (cursor_from (Some c) cs k))
                                       [0..<Suc (length cs)])"
      using False p0 shift by (simp only: upt find.simps find_map_shift) simp
    ultimately show ?thesis
      using Cons.IH [of "Some c"] by (simp add: option.map_comp comp_def)
  qed
qed

lemma word_here_whole_word_at:
  assumes "k \<le> length q"
  shows "word_here name (cursor_from None q k) = whole_word_at name q k"
proof -
  let ?n = "length name"
  have a: "(?n \<le> length (drop k q)) = (k + ?n \<le> length q)"
    using assms by auto
  have b: "(opt_word (if k = 0 then None else Some (q ! (k - 1))) = False)
           = (k = 0 \<or> \<not> is_word (q ! (k - 1)))"
    by (simp add: opt_word_def)
  have c: "(case drop ?n (drop k q) of [] \<Rightarrow> True | c # cs \<Rightarrow> is_word c = False)
           = (k + ?n = length q \<or> \<not> is_word (q ! (k + ?n)))" if "k + ?n \<le> length q"
  proof (cases "k + ?n = length q")
    case True
    then show ?thesis by (simp add: add.commute)
  next
    case False
    then have lt: "k + ?n < length q"
      using that by simp
    then have "drop ?n (drop k q) = q ! (k + ?n) # drop (Suc (k + ?n)) q"
      by (simp add: Cons_nth_drop_Suc add.commute)
    then show ?thesis
      using False by simp
  qed
  show ?thesis
    unfolding word_here_def whole_word_at_def cursor_from_def fst_conv snd_conv a b
    using c by auto
qed

lemma re_search_word:
  assumes "wordlike name"
  shows "re_search True (word_pattern name) q
         = map_option (\<lambda>k. take (length name) (drop k q))
             (find (whole_word_at name q) [0..<Suc (length q)])"
proof -
  have "find (\<lambda>k. word_here name (cursor_from None q k)) [0..<Suc (length q)]
        = find (whole_word_at name q) [0..<Suc (length q)]"
    by (rule find_cong) (auto simp: word_here_whole_word_at)
  then show ?thesis
    using search_from_word [OF assms, of None q] by (simp add: re_search_def)
qed


lemma occurs_word_find:
  "occurs_word name q = (find (whole_word_at name q) [0..<Suc (length q)] \<noteq> None)"
  by (auto simp: occurs_word_def list_ex_iff find_None_iff)

lemma occurs_word_iff: "occurs_word name q = (\<exists>i. whole_word_at name q i)"
proof
  assume "occurs_word name q"
  then show "\<exists>i. whole_word_at name q i"
    by (auto simp: occurs_word_def list_ex_iff)
next
  assume "\<exists>i. whole_word_at name q i"
  then obtain i where i: "whole_word_at name q i"
    by blast
  then have "i \<le> length q"
    by (simp add: whole_word_at_def)
  then have "i \<in> set [0..<Suc (length q)]"
    by (simp del: upt_Suc)
  then show "occurs_word name q"
    using i unfolding occurs_word_def list_ex_iff by blast
qed

lemma find_upt_least:
  assumes "find P [0..<n] = Some i"
  shows "P i \<and> (\<forall>j<i. \<not> P j)"
proof -
  obtain k where k: "k < length [0..<n]" "P ([0..<n] ! k)" "i = [0..<n] ! k"
    and least: "\<forall>j<k. \<not> P ([0..<n] ! j)"
    using assms unfolding find_Some_iff by blast
  have ik: "i = k"
    using k by simp
  have "\<not> P j" if "j < k" for j
  proof -
    have "j < n"
      using that k(1) by simp
    then have "[0..<n] ! j = j"
      by simp
    then show ?thesis
      using least that by (metis)
  qed
  then show ?thesis
    using k ik by auto
qed

lemma first_match_words:
  assumes "\<forall>n \<in> set names. wordlike n"
  shows "first_match (map word_pattern names) q
         = (case find (\<lambda>name. occurs_word name q) names of
              None \<Rightarrow> None
            | Some name \<Rightarrow> re_search True (word_pattern name) q)"
  using assms
proof (induction names)
  case Nil
  then show ?case by simp
next
  case (Cons n ns)
  then have w: "wordlike n" and rest: "\<forall>x \<in> set ns. wordlike x"
    by simp_all
  have none: "(re_search True (word_pattern n) q = None) = (\<not> occurs_word n q)"
    by (simp add: re_search_word [OF w] occurs_word_find)
  show ?case
  proof (cases "occurs_word n q")
    case True
    then obtain m where "re_search True (word_pattern n) q = Some m"
      using none by auto
    then show ?thesis
      using True by simp
  next
    case False
    then have "re_search True (word_pattern n) q = None"
      using none by simp
    then show ?thesis
      using False Cons.IH [OF rest] by simp
  qed
qed

lemma extraction_spec:
  assumes "\<forall>n \<in> set names. wordlike n"
  shows "case find (\<lambda>name. occurs_word name q) names of
           None \<Rightarrow> first_match (map word_pattern names) q = None
         | Some name \<Rightarrow>
             (\<exists>i. whole_word_at name q i \<and> (\<forall>j<i. \<not> whole_word_at name q j)
                \<and> first_match (map word_pattern names) q = Some (take (length name) (drop i q))
                \<and> lower (take (length name) (drop i q)) = lower name)"
proof (cases "find (\<lambda>name. occurs_word name q) names")
  case None
  then show ?thesis
    by (simp add: first_match_words [OF assms])
next
  case (Some name)
  then have mem: "name \<in> set names" and occ: "occurs_word name q"
    by (auto simp: find_Some_iff)
  have w: "wordlike name"
    using assms mem by simp
  obtain i where i: "find (whole_word_at name q) [0..<Suc (length q)] = Some i"
    using occ by (auto simp: occurs_word_find)
  have least: "whole_word_at name q i \<and> (\<forall>j<i. \<not> whole_word_at name q j)"
    using find_upt_least [OF i] .
  have "first_match (map word_pattern names) q = Some (take (length name) (drop i q))"
    using Some i by (simp add: first_match_words [OF assms] re_search_word [OF w])
  moreover have "lower (take (length name) (drop i q)) = lower name"
    using least by (simp add: whole_word_at_def)
  ultimately show ?thesis
    using Some least by auto
qed

lemma drug_names_wordlike: "\<forall>n \<in> set DRUG_NAMES. wordlike n"
proof -
  have "list_all wordlike DRUG_NAMES"
    by code_simp
  then show ?thesis
    by (simp add: list_all_iff)
qed

lemma therapy_areas_wordlike: "\<forall>n \<in> set THERAPY_AREAS. wordlike n"
proof -
  have "list_all wordlike THERAPY_AREAS"
    by code_simp
  then show ?thesis
    by (simp add: list_all_iff)
qed

text \<open>
  Claim C7, as amended. Take the first name of the vocabulary, in vocabulary order, that
  occurs in the query as a whole word (up to letter case, between characters that are
  not word characters or the ends of the text; so punctuation around it does not
  matter). Entity extraction returns the leftmost such occurrence of that name, spelled
  as in the query, hence equal to the name up to case; when no vocabulary name occurs,
  the entity is absent. This holds for drug names and for therapy areas. (As stated,
  with the vocabulary name itself returned, the claim fails for a query that spells the
  name in another case: see the counterexample below.)
\<close>

theorem entity_extraction_first_whole_word:
  "(case find (\<lambda>name. occurs_word name q) DRUG_NAMES of
      None \<Rightarrow> extract_drug_name q = None
    | Some name \<Rightarrow>
        (\<exists>i. whole_word_at name q i \<and> (\<forall>j<i. \<not> whole_word_at name q j)
           \<and> extract_drug_name q = Some (take (length name) (drop i q))
           \<and> lower (take (length name) (drop i q)) = lower name))
   \<and> (case find (\<lambda>name. occurs_word name q) THERAPY_AREAS of
      None \<Rightarrow> extract_therapy_area q = None
    | Some name \<Rightarrow>
        (\<exists>i. whole_word_at name q i \<and> (\<forall>j<i. \<not> whole_word_at name q j)
           \<and> extract_therapy_area q = Some (take (length name) (drop i q))
           \<and> lower (take (length name) (drop i q)) = lower name))
   \<and> (\<forall>name. occurs_word name q = (\<exists>i. whole_word_at name q i))"
proof (intro conjI)
  show "case find (\<lambda>name. occurs_word name q) DRUG_NAMES of
      None \<Rightarrow> extract_drug_name q = None
    | Some name \<Rightarrow>
        (\<exists>i. whole_word_at name q i \<and> (\<forall>j<i. \<not> whole_word_at name q j)
           \<and> extract_drug_name q = Some (take (length name) (drop i q))
           \<and> lower (take (length name) (drop i q)) = lower name)"
    unfolding extract_drug_name_def drug_patterns_def
    by (rule extraction_spec [OF drug_names_wordlike])
  show "case find (\<lambda>name. occurs_word name q) THERAPY_AREAS of
      None \<Rightarrow> extract_therapy_area q = None
    | Some name \<Rightarrow>
        (\<exists>i. whole_word_at name q i \<and> (\<forall>j<i. \<not> whole_word_at name q j)
           \<and> extract_therapy_area q = Some (take (length name) (drop i q))
           \<and> lower (take (length name) (drop i q)) = lower name)"
    unfolding extract_therapy_area_def therapy_patterns_def
    by (rule extraction_spec [OF therapy_areas_wordlike])
  show "\<forall>name. occurs_word name q = (\<exists>i. whole_word_at name q i)"
    by (simp add: occurs_word_iff)
qed

theorem entity_extraction_first_whole_word_witness:
  "find (\<lambda>name. occurs_word name ''Is metformin (CARDIOLOGY) ok?'') DRUG_NAMES = Some ''Metformin''
   \<and> extract_drug_name ''Is metformin (CARDIOLOGY) ok?'' = Some ''metformin''
   \<and> find (\<lambda>name. occurs_word name ''Is metformin (CARDIOLOGY) ok?'') THERAPY_AREAS
       = Some ''Cardiology''
   \<and> lower (the (extract_therapy_area ''Is metformin (CARDIOLOGY) ok?'')) = lower ''Cardiology''"
proof -
  let ?q = "''Is metformin (CARDIOLOGY) ok?''"
  have d: "find (\<lambda>name. occurs_word name ?q) DRUG_NAMES = Some ''Metformin''"
    by code_simp
  have t: "find (\<lambda>name. occurs_word name ?q) THERAPY_AREAS = Some ''Cardiology''"
    by code_simp
  have at3: "whole_word_at ''Metformin'' ?q 3"
    by code_simp
  have b0: "\<not> whole_word_at ''Metformin'' ?q 0"
    by code_simp
  have b1: "\<not> whole_word_at ''Metformin'' ?q 1"
    by code_simp
  have b2: "\<not> whole_word_at ''Metformin'' ?q 2"
    by code_simp
  note th = entity_extraction_first_whole_word [of ?q]
  obtain i where i: "whole_word_at ''Metformin'' ?q i"
    and least: "\<forall>j<i. \<not> whole_word_at ''Metformin'' ?q j"
    and ex: "extract_drug_name ?q = Some (take (length ''Metformin'') (drop i ?q))"
    using th d by auto
  have "\<not> 3 < i"
    using least at3 by blast
  moreover have "i \<noteq> 0"
  proof
    assume "i = 0"
    with i b0 show False
      by simp
  qed
  moreover have "i \<noteq> 1"
  proof
    assume "i = 1"
    with i b1 show False
      by simp
  qed
  moreover have "i \<noteq> 2"
  proof
    assume "i = 2"
    with i b2 show False
      by simp
  qed
  ultimately have "i = 3"
    by arith
  then have drug: "extract_drug_name ?q = Some ''metformin''"
    using ex by simp
  obtain k where "extract_therapy_area ?q = Some (take (length ''Cardiology'') (drop k ?q))"
    and "lower (take (length ''Cardiology'') (drop k ?q)) = lower ''Cardiology''"
    using th t by auto
  then have "lower (the (extract_therapy_area ?q)) = lower ''Cardiology''"
    by simp
  then show ?thesis
    using d t drug by simp
qed

text \<open>
  Counterexample to claim C7 as stated: the query holds the drug name \<open>Metformin\<close> as a
  whole word, in lower case, and the extracted entity is the query's spelling, not the
  vocabulary name.
\<close>

theorem entity_keeps_query_spelling:
  "occurs_word ''Metformin'' ''metformin?''
   \<and> extract_drug_name ''metformin?'' = Some ''metformin''
   \<and> extract_drug_name ''metformin?'' \<noteq> Some ''Metformin''"
  by code_simp


end
